theory Spec2Isabelle
  imports Main "HOL-Library.Char_ord" "HOL-Library.List_Lexorder" "HOL-Library.Sublist"
begin

section \<open>Index and query definitions\<close>

text \<open>
  The package \<open>model\<close> maintains secondary indexes on top of a key-value store.
  Go strings are byte strings: they are modelled by \<^typ>\<open>string\<close>, whose characters
  are bytes, and compared bytewise (the lexicographic order of \<^typ>\<open>char list\<close>).
\<close>

type_synonym OrderType = string

definition OrderTypeUnordered :: OrderType where
  "OrderTypeUnordered = ''unordered''"

definition OrderTypeAsc :: OrderType where
  "OrderTypeAsc = ''ascending''"

definition OrderTypeDesc :: OrderType where
  "OrderTypeDesc = ''descending''"

definition queryTypeEq :: string where
  "queryTypeEq = ''eq''"

definition indexTypeEq :: string where
  "indexTypeEq = ''eq''"

record Order =
  FieldName :: string
  Type :: OrderType

record Index =
  FieldName :: string
  Type :: string
  Order :: Order
  Unique :: bool
  StringOrderPadLength :: int
  Base32Encode :: bool

section \<open>Dynamic values\<close>

text \<open>
  Floating-point arithmetic and formatting are outside the model. A \<open>float64\<close> is
  represented by the two texts the code can print for it: what \<open>%v\<close> prints for the
  value itself, and what \<open>%v\<close> prints for \<open>math.MaxFloat64 - value\<close>.
\<close>

datatype float64 = Float64 (fmt_float: string) (fmt_max_minus: string)

text \<open>
  The dynamic values (\<open>interface{}\<close>) the package meets: what \<open>encoding/json\<close> decodes
  (nil, strings, numbers, booleans, arrays, objects), and the \<open>int\<close>, \<open>int64\<close> and
  \<open>float64\<close> a caller can put in a query. A \<open>json.Number\<close> is its literal text; it
  carries the result of its method \<open>Float64()\<close> (\<open>None\<close> when that fails), which is also
  what a decoder without \<open>UseNumber\<close> makes of the same token. \<open>int\<close> is the 64-bit
  \<open>int\<close> of the common platforms. The entries of an object are kept in the order
  \<open>fmt\<close> prints them (sorted by key).
\<close>

datatype val =
    VNil
  | VString string
  | VNumber string "float64 option"
  | VInt64 int
  | VFloat64 float64
  | VInt int
  | VBool bool
  | VArray "val list"
  | VObject "(string \<times> val) list"

text \<open>A decoded object, \<open>map[string]interface{}\<close>: its fields, each key once.\<close>

type_synonym fields = "(string \<times> val) list"

text \<open>Indexing a Go map: a missing key reads as the nil interface.\<close>

definition get_field :: "fields \<Rightarrow> string \<Rightarrow> val" where
  "get_field m k = (case map_of m k of None \<Rightarrow> VNil | Some v \<Rightarrow> v)"

text \<open>\<open>reflect.TypeOf(v).String()\<close>, with \<open>nil\<close> for the nil interface as the source has it.\<close>

fun typName :: "val \<Rightarrow> string" where
  "typName VNil = ''nil''"
| "typName (VString _) = ''string''"
| "typName (VNumber _ _) = ''json.Number''"
| "typName (VInt64 _) = ''int64''"
| "typName (VFloat64 _) = ''float64''"
| "typName (VInt _) = ''int''"
| "typName (VBool _) = ''bool''"
| "typName (VArray _) = ''[]interface {}''"
| "typName (VObject _) = ''map[string]interface {}''"

subsection \<open>Formatting\<close>

definition digit :: "int \<Rightarrow> char" where
  "digit d = char_of (48 + d)"

text \<open>The decimal digits of a non-negative integer.\<close>

function dec_digits :: "int \<Rightarrow> string" where
  "dec_digits n = (if n < 10 then [digit n] else dec_digits (n div 10) @ [digit (n mod 10)])"
  by pat_completeness auto
termination
  by (relation "measure nat") auto

declare dec_digits.simps [simp del]

definition fmt_d :: "int \<Rightarrow> string" where
  "fmt_d n = (if n < 0 then CHR ''-'' # dec_digits (- n) else dec_digits n)"

definition zero_pad :: "nat \<Rightarrow> string \<Rightarrow> string" where
  "zero_pad w s = replicate (w - length s) CHR ''0'' @ s"

text \<open>\<open>fmt.Sprintf("%019d", n)\<close>: the width counts the sign, the zeros follow it.\<close>

definition fmt_019d :: "int \<Rightarrow> string" where
  "fmt_019d n =
     (if n < 0 then CHR ''-'' # zero_pad 18 (dec_digits (- n))
      else zero_pad 19 (dec_digits n))"

fun join :: "string \<Rightarrow> string list \<Rightarrow> string" where
  "join sep [] = []"
| "join sep [x] = x"
| "join sep (x # y # ys) = x @ sep @ join sep (y # ys)"

text \<open>The verb \<open>%v\<close>.\<close>

fun fmt_v :: "val \<Rightarrow> string" where
  "fmt_v VNil = ''<nil>''"
| "fmt_v (VString s) = s"
| "fmt_v (VNumber lit _) = lit"
| "fmt_v (VInt64 n) = fmt_d n"
| "fmt_v (VFloat64 f) = fmt_float f"
| "fmt_v (VInt n) = fmt_d n"
| "fmt_v (VBool b) = (if b then ''true'' else ''false'')"
| "fmt_v (VArray xs) = ''['' @ join '' '' (map fmt_v xs) @ '']''"
| "fmt_v (VObject kvs) =
     ''map['' @ join '' '' (map (\<lambda>kv. fst kv @ '':'' @ fmt_v (snd kv)) kvs) @ '']''"

subsection \<open>Machine integers\<close>

definition MaxInt64 :: int where
  "MaxInt64 = 9223372036854775807"

definition MaxInt32 :: int where
  "MaxInt32 = 2147483647"

text \<open>Arithmetic on \<open>int64\<close> (and the 64-bit \<open>int\<close>) wraps around.\<close>

definition wrap64 :: "int \<Rightarrow> int" where
  "wrap64 x = (x + 9223372036854775808) mod 18446744073709551616 - 9223372036854775808"

text \<open>
  \<open>json.Number.Int64\<close> is \<open>strconv.ParseInt(s, 10, 64)\<close>: an optional sign, then decimal
  digits only, and the value within the range of \<open>int64\<close>; anything else is an error.
\<close>

definition is_digit :: "char \<Rightarrow> bool" where
  "is_digit c = (CHR ''0'' \<le> c \<and> c \<le> CHR ''9'')"

definition digits_value :: "string \<Rightarrow> int" where
  "digits_value ds = foldl (\<lambda>acc c. acc * 10 + (of_char c - 48)) 0 ds"

definition ParseInt :: "string \<Rightarrow> int option" where
  "ParseInt s =
     (let neg = (s \<noteq> [] \<and> hd s = CHR ''-'');
          ds = (if s \<noteq> [] \<and> (hd s = CHR ''-'' \<or> hd s = CHR ''+'') then tl s else s)
      in if ds = [] \<or> \<not> list_all is_digit ds then None
         else if neg then
           (if digits_value ds \<le> 9223372036854775808 then Some (- digits_value ds) else None)
         else
           (if digits_value ds \<le> MaxInt64 then Some (digits_value ds) else None))"

subsection \<open>UTF-8\<close>

definition MaxRune :: int where
  "MaxRune = 1114111"

definition RuneError :: int where
  "RuneError = 65533"

definition valid_rune :: "int \<Rightarrow> bool" where
  "valid_rune r = (0 \<le> r \<and> r \<le> MaxRune \<and> \<not> (55296 \<le> r \<and> r \<le> 57343))"

definition byte :: "int \<Rightarrow> char" where
  "byte n = char_of n"

text \<open>The UTF-8 encoding of a valid rune.\<close>

definition encode_rune :: "int \<Rightarrow> string" where
  "encode_rune r =
     (if r < 128 then [byte r]
      else if r < 2048 then [byte (192 + r div 64), byte (128 + r mod 64)]
      else if r < 65536 then
        [byte (224 + r div 4096), byte (128 + (r div 64) mod 64), byte (128 + r mod 64)]
      else
        [byte (240 + r div 262144), byte (128 + (r div 4096) mod 64),
         byte (128 + (r div 64) mod 64), byte (128 + r mod 64)])"

text \<open>
  The conversion \<open>string(runes)\<close>: a rune that is out of range or a surrogate half is
  written as the replacement character.
\<close>

definition string_of_runes :: "int list \<Rightarrow> string" where
  "string_of_runes rs =
     concat (map (\<lambda>r. encode_rune (if valid_rune r then r else RuneError)) rs)"

definition cont :: "int \<Rightarrow> bool" where
  "cont b = (128 \<le> b \<and> b \<le> 191)"

text \<open>
  \<open>utf8.DecodeRuneInString\<close>: the first rune of a byte sequence and its width. A byte
  that starts no well-formed sequence decodes to the replacement character, width 1.
\<close>

definition second_lo :: "int \<Rightarrow> int" where
  "second_lo b0 = (if b0 = 224 then 160 else if b0 = 240 then 144 else 128)"

definition second_hi :: "int \<Rightarrow> int" where
  "second_hi b0 = (if b0 = 237 then 159 else if b0 = 244 then 143 else 191)"

fun decode_rune :: "int list \<Rightarrow> int \<times> nat" where
  "decode_rune [] = (RuneError, 0)"
| "decode_rune (b0 # bs) =
     (if b0 < 128 then (b0, 1)
      else if 194 \<le> b0 \<and> b0 \<le> 223 then
        (case bs of
           b1 # _ \<Rightarrow>
             if cont b1 then ((b0 mod 32) * 64 + b1 mod 64, 2) else (RuneError, 1)
         | _ \<Rightarrow> (RuneError, 1))
      else if 224 \<le> b0 \<and> b0 \<le> 239 then
        (case bs of
           b1 # b2 # _ \<Rightarrow>
             if second_lo b0 \<le> b1 \<and> b1 \<le> second_hi b0 \<and> cont b2
             then ((b0 mod 16) * 4096 + (b1 mod 64) * 64 + b2 mod 64, 3)
             else (RuneError, 1)
         | _ \<Rightarrow> (RuneError, 1))
      else if 240 \<le> b0 \<and> b0 \<le> 244 then
        (case bs of
           b1 # b2 # b3 # _ \<Rightarrow>
             if second_lo b0 \<le> b1 \<and> b1 \<le> second_hi b0 \<and> cont b2 \<and> cont b3
             then ((b0 mod 8) * 262144 + (b1 mod 64) * 4096 + (b2 mod 64) * 64 + b3 mod 64, 4)
             else (RuneError, 1)
         | _ \<Rightarrow> (RuneError, 1))
      else (RuneError, 1))"

text \<open>The runes a \<open>for _, char := range s\<close> loop sees.\<close>

fun range_runes :: "nat \<Rightarrow> int list \<Rightarrow> int list" where
  "range_runes skip [] = []"
| "range_runes skip (b # bs) =
     (if skip = 0 then fst (decode_rune (b # bs)) # range_runes (snd (decode_rune (b # bs)) - 1) bs
      else range_runes (skip - 1) bs)"

definition runes_of :: "string \<Rightarrow> int list" where
  "runes_of s = range_runes 0 (map of_char s)"

subsection \<open>Library string functions\<close>

text \<open>
  \<open>strings.Title\<close> maps the runes of its argument with \<open>strings.Map\<close>: a rune that
  follows a separator is replaced by its title case, where the rune before the first one
  counts as a space. The result is written rune by rune: a byte that belongs to no
  well-formed sequence comes out as the replacement character, and a negative rune is
  dropped. Up to \<open>0x7F\<close> the code of the library decides what a separator is and what the
  title case is. Above it the tables of package \<open>unicode\<close> decide (a separator is a
  space that is no letter and no digit); they are outside the model, and the two
  functions that stand for them are left open.
\<close>

definition unicode_ToTitle :: "int \<Rightarrow> int" where
  "unicode_ToTitle = undefined"

definition unicode_separator :: "int \<Rightarrow> bool" where
  "unicode_separator = undefined"

definition isSeparator :: "int \<Rightarrow> bool" where
  "isSeparator r =
     (if r \<le> 127 then
        \<not> (48 \<le> r \<and> r \<le> 57) \<and> \<not> (97 \<le> r \<and> r \<le> 122) \<and> \<not> (65 \<le> r \<and> r \<le> 90) \<and> r \<noteq> 95
      else unicode_separator r)"

definition ToTitle :: "int \<Rightarrow> int" where
  "ToTitle r =
     (if r \<le> 127 then (if 97 \<le> r \<and> r \<le> 122 then r - 32 else r) else unicode_ToTitle r)"

fun title_from :: "int \<Rightarrow> int list \<Rightarrow> int list" where
  "title_from prev [] = []"
| "title_from prev (r # rs) = (if isSeparator prev then ToTitle r else r) # title_from r rs"

definition Title :: "string \<Rightarrow> string" where
  "Title s = string_of_runes (filter (\<lambda>r. 0 \<le> r) (title_from 32 (runes_of s)))"

text \<open>\<open>strings.ReplaceAll\<close> with patterns of one byte.\<close>

definition ReplaceAll :: "string \<Rightarrow> char \<Rightarrow> char \<Rightarrow> string" where
  "ReplaceAll s old new = map (\<lambda>c. if c = old then new else c) s"

text \<open>
  \<open>base32.HexEncoding\<close>: every 5 bytes give 8 characters of the extended-hex alphabet;
  a shorter last group is filled with zero bits and its unused characters are \<open>=\<close>.
\<close>

definition encodeHex :: string where
  "encodeHex = ''0123456789ABCDEFGHIJKLMNOPQRSTUV''"

definition base32_group :: "string \<Rightarrow> string" where
  "base32_group bs =
     (let n = foldl (\<lambda>acc b. acc * 256 + b) (0::int)
                (map of_char bs @ replicate (5 - length bs) 0);
          cs = map (\<lambda>k. encodeHex ! nat ((n div 32 ^ (7 - k)) mod 32)) [0..<8];
          keep = (case length bs of
                    Suc 0 \<Rightarrow> 2
                  | Suc (Suc 0) \<Rightarrow> 4
                  | Suc (Suc (Suc 0)) \<Rightarrow> 5
                  | Suc (Suc (Suc (Suc 0))) \<Rightarrow> 7
                  | _ \<Rightarrow> 8)
      in take keep cs @ replicate (8 - keep) CHR ''='')"

fun base32_encode :: "string \<Rightarrow> string" where
  "base32_encode (a # b # c # d # e # rest) = base32_group [a, b, c, d, e] @ base32_encode rest"
| "base32_encode [] = []"
| "base32_encode bs = base32_group bs"

section \<open>The model\<close>

text \<open>
  A returned \<open>error\<close> and a panic are the two ways an operation fails; both are values
  here. Operations return \<open>failure + 'a\<close>, with \<open>Inl\<close> the failure.
\<close>

datatype failure = Err string | Panic string

record ModelOptions =
  Debug :: bool
  IdIndex :: Index

text \<open>
  The receiver \<open>*model\<close> without its store: the store is passed to and returned from
  the operations that use it.
\<close>

record model =
  namespace :: string
  indexes :: "Index list"
  options :: ModelOptions

record Query =
  Index :: Index
  Order :: Order
  Value :: val
  Offset :: int
  Limit :: int

definition ByEquality :: "string \<Rightarrow> Index" where
  "ByEquality fieldName =
     \<lparr> Index.FieldName = fieldName,
       Index.Type = indexTypeEq,
       Index.Order = \<lparr> Order.FieldName = fieldName, Order.Type = OrderTypeAsc \<rparr>,
       Unique = False,
       StringOrderPadLength = 16,
       Base32Encode = False \<rparr>"

definition defaultIndex :: Index where
  "defaultIndex =
     (ByEquality ''id'')\<lparr> Index.Order :=
        (Index.Order (ByEquality ''id''))\<lparr> Order.Type := OrderTypeUnordered \<rparr> \<rparr>"

definition ToQuery :: "Index \<Rightarrow> val \<Rightarrow> Query" where
  "ToQuery i v =
     \<lparr> Query.Index = i, Query.Order = Index.Order i, Value = v, Offset = 0, Limit = 0 \<rparr>"

text \<open>\<open>Equals\<close>; the fields its composite literal leaves out have their zero values.\<close>

definition Equals :: "string \<Rightarrow> val \<Rightarrow> Query" where
  "Equals fieldName v =
     \<lparr> Query.Index =
         \<lparr> Index.FieldName = fieldName,
           Index.Type = queryTypeEq,
           Index.Order = \<lparr> Order.FieldName = fieldName, Order.Type = OrderTypeAsc \<rparr>,
           Unique = False,
           StringOrderPadLength = 0,
           Base32Encode = False \<rparr>,
       Query.Order = \<lparr> Order.FieldName = fieldName, Order.Type = OrderTypeAsc \<rparr>,
       Value = v, Offset = 0, Limit = 0 \<rparr>"

text \<open>
  \<open>NewModel\<close>: without options, or with options whose identity index has an empty
  type, the identity index is the default one.
\<close>

definition NewModel :: "string \<Rightarrow> Index list \<Rightarrow> ModelOptions option \<Rightarrow> model" where
  "NewModel ns ixs opts =
     (let debug = (case opts of None \<Rightarrow> False | Some opt \<Rightarrow> Debug opt);
          idIndex = (case opts of None \<Rightarrow> None | Some opt \<Rightarrow> Some (IdIndex opt))
      in \<lparr> namespace = ns, indexes = ixs,
           options = \<lparr> Debug = debug,
                       IdIndex = (case idIndex of
                                    None \<Rightarrow> defaultIndex
                                  | Some ix \<Rightarrow> if Index.Type ix = [] then defaultIndex else ix) \<rparr> \<rparr>)"

definition indexMatchesQuery :: "Index \<Rightarrow> Query \<Rightarrow> bool" where
  "indexMatchesQuery i q =
     (Index.FieldName i = Index.FieldName (Query.Index q) \<and>
      Index.Type i = Index.Type (Query.Index q) \<and>
      Order.Type (Index.Order i) = Order.Type (Query.Order q))"

definition indexesMatch :: "Index \<Rightarrow> Index \<Rightarrow> bool" where
  "indexesMatch i j =
     (Index.FieldName i = Index.FieldName j \<and>
      Index.Type i = Index.Type j \<and>
      Order.Type (Index.Order i) = Order.Type (Index.Order j))"

section \<open>The key encoder\<close>

text \<open>\<open>indexPrefix\<close> returns the first part of the keys after the namespace.\<close>

definition indexPrefix :: "Index \<Rightarrow> string" where
  "indexPrefix i =
     (if Order.Type (Index.Order i) \<noteq> OrderTypeUnordered then
        ''by'' @ (if Order.Type (Index.Order i) = OrderTypeDesc then ''Desc'' else [])
          @ ''Ordered'' @ Title (Index.FieldName i)
      else ''by'' @ Title (Index.FieldName i))"

text \<open>\<open>getOrderedStringFieldKey\<close>: pad, reverse and optionally base32 encode string keys.\<close>

definition getOrderedStringFieldKey :: "model \<Rightarrow> Index \<Rightarrow> string \<Rightarrow> string" where
  "getOrderedStringFieldKey d i fieldValue =
     (let desc = (Order.Type (Index.Order i) = OrderTypeDesc);
          runes = (if desc then map (\<lambda>char. MaxRune - char) (runes_of fieldValue)
                   else runes_of fieldValue);
          padded = (if int (length runes) < StringOrderPadLength i then
                      runes @ replicate (nat (StringOrderPadLength i - int (length runes)))
                                (if desc then MaxRune else 32)
                    else runes);
          bs = string_of_runes padded
      in if desc then
           (if Base32Encode i then ReplaceAll (base32_encode bs) CHR ''='' CHR ''0'' else bs)
         else bs)"

text \<open>
  The part of the key that orders: the \<open>switch\<close> of \<open>indexToKey\<close> on the dynamic type
  of the order field's value. The two panics are failures of the model.
\<close>

definition orderKeyPart :: "model \<Rightarrow> Index \<Rightarrow> string \<Rightarrow> val \<Rightarrow> failure + string" where
  "orderKeyPart d i orderFieldKey orderFieldValue =
     (let desc = (Order.Type (Index.Order i) = OrderTypeDesc) in
      case orderFieldValue of
        VString v \<Rightarrow>
          if Order.Type (Index.Order i) \<noteq> OrderTypeUnordered
          then Inr (getOrderedStringFieldKey d i v) else Inr v
      | VNumber v f \<Rightarrow>
          (case ParseInt v of
             Some i64 \<Rightarrow>
               if desc then Inr (fmt_019d (wrap64 (MaxInt64 - i64))) else Inr (fmt_019d i64)
           | None \<Rightarrow>
               (case f of
                  Some f64 \<Rightarrow> if desc then Inr (fmt_max_minus f64) else Inr v
                | None \<Rightarrow>
                    Inl (Panic (''bug in code, unhandled json.Number type: ''
                           @ typName orderFieldValue @ '' for field '' @ Index.FieldName i))))
      | VInt64 v \<Rightarrow>
          if desc then Inr (fmt_019d (wrap64 (MaxInt64 - v))) else Inr (fmt_019d v)
      | VFloat64 v \<Rightarrow>
          if desc then Inr (fmt_max_minus v) else Inr (fmt_float v)
      | VInt v \<Rightarrow>
          if desc then Inr (fmt_019d (wrap64 (MaxInt32 - v))) else Inr (fmt_019d v)
      | VBool v \<Rightarrow> Inr (fmt_v (VBool v))
      | _ \<Rightarrow>
          Inl (Panic (''bug in code, unhandled type: '' @ typName orderFieldValue
                 @ '' for field '' @ orderFieldKey)))"

text \<open>
  An index that names another field to order by than the one it filters on takes the
  order value from that field.
\<close>

definition ordersByOtherField :: "Index \<Rightarrow> bool" where
  "ordersByOtherField i =
     (Index.FieldName i \<noteq> Order.FieldName (Index.Order i)
        \<and> Order.FieldName (Index.Order i) \<noteq> [])"

definition orderFieldKey :: "Index \<Rightarrow> string" where
  "orderFieldKey i =
     (if ordersByOtherField i then Order.FieldName (Index.Order i) else Index.FieldName i)"

text \<open>
  \<open>indexToKey\<close>: the namespace, the index prefix, the filter value when the index orders
  by another field than it filters on, the order part, and the id when \<open>appendID\<close>,
  joined by colons.
\<close>

definition indexToKey :: "model \<Rightarrow> Index \<Rightarrow> val \<Rightarrow> fields \<Rightarrow> bool \<Rightarrow> failure + string" where
  "indexToKey d i idv entry appendID =
     (let filterFieldValue = get_field entry (Index.FieldName i);
          orderFieldValue = get_field entry (orderFieldKey i);
          values = [namespace d, indexPrefix i];
          tail = (if appendID then [fmt_v idv] else [])
      in if Index.Type i = indexTypeEq then
           (case orderKeyPart d i (orderFieldKey i) orderFieldValue of
              Inl e \<Rightarrow> Inl e
            | Inr part \<Rightarrow>
                Inr (join '':'' (values @ (if ordersByOtherField i then [fmt_v filterFieldValue] else [])
                                   @ [part] @ tail)))
         else Inr (join '':'' (values @ tail)))"

section \<open>The store\<close>

text \<open>
  The store is the collaborator \<open>store.Store\<close>: \<open>Write\<close> upserts a key, \<open>Delete\<close> removes
  it, \<open>Read\<close> with \<open>ReadPrefix\<close> returns the records whose key starts with the given
  text, in the order of the keys. It is modelled as an in-memory store, together with the
  journal of the writes and deletions issued to it. The value bytes of a record are the
  JSON text of an object; the model keeps the object that text denotes, as a decoder with
  \<open>UseNumber\<close> reads it. Each operation can return an error: the store carries the keys
  on which its backend fails.
\<close>

datatype store_op = OpWrite string fields | OpDelete string

record store =
  contents :: "(string \<times> fields) list"
  issued :: "store_op list"
  faulty :: "string list"

definition store_error :: failure where
  "store_error = Err ''store: operation failed''"

fun put :: "string \<Rightarrow> fields \<Rightarrow> (string \<times> fields) list \<Rightarrow> (string \<times> fields) list" where
  "put k v [] = [(k, v)]"
| "put k v ((k', v') # rest) =
     (if k = k' then (k, v) # rest
      else if k < k' then (k, v) # (k', v') # rest
      else (k', v') # put k v rest)"

text \<open>The store after an operation was issued and failed, and after one that was done.\<close>

definition attempted :: "store \<Rightarrow> store_op \<Rightarrow> store" where
  "attempted st op = st\<lparr> issued := issued st @ [op] \<rparr>"

definition written :: "store \<Rightarrow> string \<Rightarrow> fields \<Rightarrow> store" where
  "written st k v =
     st\<lparr> contents := put k v (contents st), issued := issued st @ [OpWrite k v] \<rparr>"

definition deleted :: "store \<Rightarrow> string \<Rightarrow> store" where
  "deleted st k =
     st\<lparr> contents := filter (\<lambda>kv. fst kv \<noteq> k) (contents st),
         issued := issued st @ [OpDelete k] \<rparr>"

definition scan :: "store \<Rightarrow> string \<Rightarrow> (string \<times> fields) list" where
  "scan st k = filter (\<lambda>kv. prefix k (fst kv)) (contents st)"

definition store_Write :: "store \<Rightarrow> string \<Rightarrow> fields \<Rightarrow> (failure + unit) \<times> store" where
  "store_Write st k v =
     (if k \<in> set (faulty st) then (Inl store_error, attempted st (OpWrite k v))
      else (Inr (), written st k v))"

definition store_Delete :: "store \<Rightarrow> string \<Rightarrow> (failure + unit) \<times> store" where
  "store_Delete st k =
     (if k \<in> set (faulty st) then (Inl store_error, attempted st (OpDelete k))
      else (Inr (), deleted st k))"

definition store_Read :: "store \<Rightarrow> string \<Rightarrow> failure + (string \<times> fields) list" where
  "store_Read st k = (if k \<in> set (faulty st) then Inl store_error else Inr (scan st k))"

text \<open>What the store holds under a key.\<close>

definition lookup :: "store \<Rightarrow> string \<Rightarrow> fields option" where
  "lookup st k = map_of (contents st) k"

subsection \<open>Decoding stored values\<close>

text \<open>
  \<open>json.Unmarshal\<close> into \<open>map[string]interface{}\<close>, without \<open>UseNumber\<close>: every number
  becomes a \<open>float64\<close>, and a number that is no \<open>float64\<close> is an error, which names
  the number. The decoder goes on after such a number and returns the first error it met.
\<close>

fun plain :: "val \<Rightarrow> val" where
  "plain (VNumber lit (Some f)) = VFloat64 f"
| "plain (VArray xs) = VArray (map plain xs)"
| "plain (VObject kvs) = VObject (map (\<lambda>kv. (fst kv, plain (snd kv))) kvs)"
| "plain v = v"

text \<open>The numbers of a value that are no \<open>float64\<close>, in the order of the text.\<close>

fun out_of_range :: "val \<Rightarrow> string list" where
  "out_of_range (VNumber lit None) = [lit]"
| "out_of_range (VArray xs) = concat (map out_of_range xs)"
| "out_of_range (VObject kvs) = concat (map (\<lambda>kv. out_of_range (snd kv)) kvs)"
| "out_of_range v = []"

definition Unmarshal :: "fields list \<Rightarrow> failure + fields list" where
  "Unmarshal docs =
     (case concat (map (\<lambda>doc. concat (map (\<lambda>kv. out_of_range (snd kv)) doc)) docs) of
        [] \<Rightarrow> Inr (map (map (\<lambda>kv. (fst kv, plain (snd kv)))) docs)
      | lit # _ \<Rightarrow>
          Inl (Err (''json: cannot unmarshal number '' @ lit
                     @ '' into Go value of type float64'')))"

subsection \<open>Comparing dynamic values\<close>

text \<open>
  The operator \<open>!=\<close> on two \<open>interface{}\<close> values: values of different dynamic types
  differ, values of the same type are compared, and comparing two slices or two maps
  panics. Two \<open>float64\<close> are compared through their representation.
\<close>

fun iface_neq :: "val \<Rightarrow> val \<Rightarrow> failure + bool" where
  "iface_neq (VArray _) (VArray _) =
     Inl (Panic ''runtime error: comparing uncomparable type []interface {}'')"
| "iface_neq (VObject _) (VObject _) =
     Inl (Panic ''runtime error: comparing uncomparable type map[string]interface {}'')"
| "iface_neq (VNumber a _) (VNumber b _) = Inr (a \<noteq> b)"
| "iface_neq a b = Inr (a \<noteq> b)"

section \<open>Reading\<close>

definition queryToListKey :: "model \<Rightarrow> Index \<Rightarrow> Query \<Rightarrow> failure + string" where
  "queryToListKey d i q =
     (if Value q = VNil then Inr (join '':'' [namespace d, indexPrefix i])
      else if ordersByOtherField i
      then Inr (join '':'' [namespace d, indexPrefix i, fmt_v (Value q)])
      else indexToKey d i (VString []) [(Index.FieldName i, Value q)] False)"

definition no_index_error :: "Query \<Rightarrow> failure" where
  "no_index_error query =
     Err (''For query type '' @ [CHR 0x27] @ Index.Type (Query.Index query) @ [CHR 0x27]
          @ '', field '' @ [CHR 0x27] @ Index.FieldName (Query.Index query) @ [CHR 0x27]
          @ '' does not match any indexes'')"

text \<open>
  \<open>List\<close>: the first index that matches the query decides the key to scan; the values
  found are decoded, here into a slice of \<open>map[string]interface{}\<close> as \<open>Save\<close> and
  \<open>Delete\<close> ask for.
\<close>

definition List :: "model \<Rightarrow> store \<Rightarrow> Query \<Rightarrow> failure + fields list" where
  "List d st query =
     (case find (\<lambda>index. indexMatchesQuery index query) (indexes d @ [IdIndex (options d)]) of
        None \<Rightarrow> Inl (no_index_error query)
      | Some index \<Rightarrow>
          (case queryToListKey d index query of
             Inl e \<Rightarrow> Inl e
           | Inr k \<Rightarrow>
               (case store_Read st k of
                  Inl err \<Rightarrow> Inl err
                | Inr recs \<Rightarrow> Unmarshal (map snd recs))))"

definition ErrorNotFound :: failure where
  "ErrorNotFound = Err ''not found''"

definition ErrorMultipleRecordsFound :: failure where
  "ErrorMultipleRecordsFound = Err ''multiple records found''"

text \<open>\<open>Read\<close> expects to find one element, decoded here into a \<open>map[string]interface{}\<close>.\<close>

definition Read :: "model \<Rightarrow> store \<Rightarrow> Query \<Rightarrow> failure + fields" where
  "Read d st query =
     (case find (\<lambda>index. indexMatchesQuery index query) (indexes d @ [IdIndex (options d)]) of
        None \<Rightarrow> Inl (no_index_error query)
      | Some index \<Rightarrow>
          (case queryToListKey d index query of
             Inl e \<Rightarrow> Inl e
           | Inr k \<Rightarrow>
               (case store_Read st k of
                  Inl err \<Rightarrow> Inl err
                | Inr [] \<Rightarrow> Inl ErrorNotFound
                | Inr [rec] \<Rightarrow>
                    (case Unmarshal [snd rec] of
                       Inl e \<Rightarrow> Inl e
                     | Inr rs \<Rightarrow> Inr (hd rs))
                | Inr _ \<Rightarrow> Inl ErrorMultipleRecordsFound)))"

section \<open>Saving\<close>

text \<open>
  The uniqueness checks of \<open>Save\<close>, done before any data is saved: \<open>m\<close> is the record
  being saved. The check of one index returns a failure, or nothing when the loop is to
  go on with the next index.
\<close>

definition unique_check :: "model \<Rightarrow> store \<Rightarrow> fields \<Rightarrow> Index \<Rightarrow> failure + unit" where
  "unique_check d st m index =
     (if \<not> Unique index then Inr ()
      else
        (case List d st (ToQuery index (get_field m (Index.FieldName index))) of
           Inl err \<Rightarrow> Inl err
         | Inr res \<Rightarrow>
             (case res of
                [] \<Rightarrow> Inr ()
              | [r] \<Rightarrow>
                  (case iface_neq (get_field r (Index.FieldName (IdIndex (options d))))
                                  (get_field m (Index.FieldName (IdIndex (options d)))) of
                     Inl p \<Rightarrow> Inl p
                   | Inr differs \<Rightarrow>
                       if differs then Inl (Err ''Unique index violated'') else Inr ())
              | _ \<Rightarrow> Inl (Err ''Multiple entries found for unique index''))))"

fun unique_checks :: "model \<Rightarrow> store \<Rightarrow> fields \<Rightarrow> Index list \<Rightarrow> failure + unit" where
  "unique_checks d st m [] = Inr ()"
| "unique_checks d st m (index # rest) =
     (case unique_check d st m index of
        Inl err \<Rightarrow> Inl err
      | Inr _ \<Rightarrow> unique_checks d st m rest)"

text \<open>
  The body of the loop of \<open>Save\<close> over the declared indexes and the identity index.
  First the test for a stale key: the index is not the default identity index, an old
  entry exists, and its value for the index field differs from the new one.
\<close>

definition stale_entry :: "fields \<Rightarrow> fields option \<Rightarrow> Index \<Rightarrow> failure + fields option" where
  "stale_entry m oldEntry index =
     (if \<not> indexesMatch defaultIndex index then
        (case oldEntry of
           None \<Rightarrow> Inr None
         | Some old \<Rightarrow>
             (case iface_neq (get_field old (Index.FieldName index))
                             (get_field m (Index.FieldName index)) of
                Inl p \<Rightarrow> Inl p
              | Inr differs \<Rightarrow> Inr (if differs then Some old else None)))
      else Inr None)"

text \<open>
  Then the stale key is deleted and the new key is written. A failure leaves the store
  as the operations before it made it.
\<close>

definition save_index ::
  "model \<Rightarrow> fields \<Rightarrow> val \<Rightarrow> fields option \<Rightarrow> Index \<Rightarrow> store \<Rightarrow> (failure + unit) \<times> store"
where
  "save_index d m idv oldEntry index st =
     (case stale_entry m oldEntry index of
        Inl p \<Rightarrow> (Inl p, st)
      | Inr None \<Rightarrow>
          (case indexToKey d index idv m True of
             Inl p \<Rightarrow> (Inl p, st)
           | Inr k \<Rightarrow> store_Write st k m)
      | Inr (Some old) \<Rightarrow>
          (case indexToKey d index idv old True of
             Inl p \<Rightarrow> (Inl p, st)
           | Inr k0 \<Rightarrow>
               (case store_Delete st k0 of
                  (Inl err, st1) \<Rightarrow> (Inl err, st1)
                | (Inr _, st1) \<Rightarrow>
                    (case indexToKey d index idv m True of
                       Inl p \<Rightarrow> (Inl p, st1)
                     | Inr k \<Rightarrow> store_Write st1 k m))))"

fun save_indexes ::
  "model \<Rightarrow> fields \<Rightarrow> val \<Rightarrow> fields option \<Rightarrow> Index list \<Rightarrow> store \<Rightarrow> (failure + unit) \<times> store"
where
  "save_indexes d m idv oldEntry [] st = (Inr (), st)"
| "save_indexes d m idv oldEntry (index # rest) st =
     (case save_index d m idv oldEntry index st of
        (Inl p, st1) \<Rightarrow> (Inl p, st1)
      | (Inr _, st1) \<Rightarrow> save_indexes d m idv oldEntry rest st1)"

text \<open>
  What \<open>encoding/json\<close> makes of the instance given to \<open>Save\<close>: \<open>json.Marshal\<close> fails,
  or the JSON text is no object and decoding it into a map fails, or it is the text of
  an object, which is then both the map \<open>m\<close> and the bytes \<open>js\<close> written under every
  key.
\<close>

datatype marshalled = Instance fields | NotMarshalled string | NotAnObject string

definition Save :: "model \<Rightarrow> store \<Rightarrow> marshalled \<Rightarrow> (failure + unit) \<times> store" where
  "Save d st inst =
     (case inst of
        NotMarshalled err \<Rightarrow> (Inl (Err err), st)
      | NotAnObject err \<Rightarrow> (Inl (Err err), st)
      | Instance m \<Rightarrow>
          (let idField = Index.FieldName (IdIndex (options d));
               idQuery = ToQuery (IdIndex (options d)) (get_field m idField)
           in case List d st idQuery of
                Inl err \<Rightarrow> (Inl err, st)
              | Inr oldEntryList \<Rightarrow>
                  (let oldEntry = (case oldEntryList of [] \<Rightarrow> None | e # _ \<Rightarrow> Some e)
                   in case unique_checks d st m (indexes d) of
                        Inl err \<Rightarrow> (Inl err, st)
                      | Inr _ \<Rightarrow>
                          save_indexes d m (get_field m idField) oldEntry
                            (indexes d @ [IdIndex (options d)]) st)))"

section \<open>Deleting\<close>

definition Delete :: "model \<Rightarrow> store \<Rightarrow> Query \<Rightarrow> (failure + unit) \<times> store" where
  "Delete d st query =
     (if \<not> indexMatchesQuery defaultIndex query
      then (Inl (Err ''Delete query does not match default index''), st)
      else
        (case List d st query of
           Inl err \<Rightarrow> (Inl err, st)
         | Inr results \<Rightarrow>
             (case results of
                [] \<Rightarrow> (Inl (Err ''No entry found to delete''), st)
              | r # _ \<Rightarrow>
                  (let idField = Index.FieldName (IdIndex (options d)) in
                   case indexToKey d defaultIndex (get_field r idField)
                          [(idField, get_field r idField)] True of
                     Inl p \<Rightarrow> (Inl p, st)
                   | Inr key \<Rightarrow> store_Delete st key))))"

section \<open>The earlier variant of the package\<close>

text \<open>
  The file \<open>model/model.go\<close> holds the earlier \<open>db\<close> variant: its index has a field
  name, a type and an ordering flag, its keys are not padded, and its \<open>Save\<close> reads the
  identity from the JSON key \<open>ID\<close>, or else \<open>id\<close>. It decodes without \<open>UseNumber\<close>.
\<close>

record db_Index =
  FieldName :: string
  Type :: string
  Ordering :: bool

record db =
  db_indexes :: "db_Index list"
  db_debug :: bool

definition indexToSaveKey :: "db_Index \<Rightarrow> string \<Rightarrow> fields \<Rightarrow> string" where
  "indexToSaveKey i idv m =
     ''by'' @ db_Index.FieldName i @ '':'' @ fmt_v (get_field m (db_Index.FieldName i))
       @ '':'' @ idv"

fun db_save_indexes ::
  "string \<Rightarrow> fields \<Rightarrow> fields \<Rightarrow> db_Index list \<Rightarrow> store \<Rightarrow> (failure + unit) \<times> store"
where
  "db_save_indexes idv js m [] st = (Inr (), st)"
| "db_save_indexes idv js m (index # rest) st =
     (case store_Write st (indexToSaveKey index idv m) js of
        (Inl err, st1) \<Rightarrow> (Inl err, st1)
      | (Inr _, st1) \<Rightarrow> db_save_indexes idv js m rest st1)"

text \<open>The type assertion \<open>m[key].(string)\<close> together with the test of the length.\<close>

definition string_id :: "fields \<Rightarrow> string \<Rightarrow> string option" where
  "string_id m key =
     (case get_field m key of
        VString s \<Rightarrow> if s = [] then None else Some s
      | _ \<Rightarrow> None)"

definition missing_id_error :: failure where
  "missing_id_error =
     Err (''ID of objects must marshal to JSON key '' @ [CHR 0x27] @ ''ID'' @ [CHR 0x27]
          @ '' or '' @ [CHR 0x27] @ ''id'' @ [CHR 0x27])"

definition db_Save :: "db \<Rightarrow> store \<Rightarrow> marshalled \<Rightarrow> (failure + unit) \<times> store" where
  "db_Save d st inst =
     (case inst of
        NotMarshalled err \<Rightarrow> (Inl (Err err), st)
      | NotAnObject err \<Rightarrow> (Inl (Err err), st)
      | Instance js \<Rightarrow>
          (case Unmarshal [js] of
             Inl err \<Rightarrow> (Inl err, st)
           | Inr ms \<Rightarrow>
               (let m = hd ms in
                case (case string_id m ''ID'' of Some s \<Rightarrow> Some s | None \<Rightarrow> string_id m ''id'') of
                  None \<Rightarrow> (Inl missing_id_error, st)
                | Some idv \<Rightarrow>
                    (case store_Write st idv js of
                       (Inl err, st1) \<Rightarrow> (Inl err, st1)
                     | (Inr _, st1) \<Rightarrow> db_save_indexes idv js m (db_indexes d) st1))))"

section \<open>Vocabulary of the properties\<close>

text \<open>
  The kinds of value the key encoder has a case for: strings, the integer and
  floating-point representations, and booleans.
\<close>

definition supported_kind :: "val \<Rightarrow> bool" where
  "supported_kind v =
     (case v of
        VString _ \<Rightarrow> True
      | VNumber _ _ \<Rightarrow> True
      | VInt64 _ \<Rightarrow> True
      | VFloat64 _ \<Rightarrow> True
      | VInt _ \<Rightarrow> True
      | VBool _ \<Rightarrow> True
      | _ \<Rightarrow> False)"




text \<open>What \<open>Save\<close> takes for the old entry from the result of its first lookup.\<close>

definition first_entry :: "fields list \<Rightarrow> fields option" where
  "first_entry oldEntryList = (case oldEntryList of [] \<Rightarrow> None | e # _ \<Rightarrow> Some e)"



subsection \<open>Concrete models, records and stores\<close>

definition empty_store :: store where
  "empty_store = \<lparr> contents = [], issued = [], faulty = [] \<rparr>"

text \<open>
  The JSON numbers 30 and 31: as \<open>float64\<close> they print as \<open>30\<close> and \<open>31\<close>, and
  \<open>math.MaxFloat64\<close> minus either rounds to \<open>math.MaxFloat64\<close>.
\<close>

definition number_30 :: val where
  "number_30 = VNumber ''30'' (Some (Float64 ''30'' ''1.7976931348623157e+308''))"

definition number_31 :: val where
  "number_31 = VNumber ''31'' (Some (Float64 ''31'' ''1.7976931348623157e+308''))"

definition bare_model :: model where
  "bare_model = NewModel ''users'' [] None"

definition age_model :: model where
  "age_model = NewModel ''users'' [ByEquality ''age''] None"

definition user_aged_30 :: fields where
  "user_aged_30 = [(''id'', VString ''1''), (''age'', number_30)]"

definition user_aged_31 :: fields where
  "user_aged_31 = [(''id'', VString ''1''), (''age'', number_31)]"

definition age_store_1 :: store where
  "age_store_1 = snd (Save age_model empty_store (Instance user_aged_30))"

definition age_store_2 :: store where
  "age_store_2 = snd (Save age_model age_store_1 (Instance user_aged_31))"













definition name_pad_3 :: Index where
  "name_pad_3 = (ByEquality ''name'')\<lparr> StringOrderPadLength := 3 \<rparr>"

definition name_pad_1 :: Index where
  "name_pad_1 = (ByEquality ''name'')\<lparr> StringOrderPadLength := 1 \<rparr>"

definition two_pad_model :: model where
  "two_pad_model = NewModel ''u'' [name_pad_3, name_pad_1] None"

definition named_ab_space :: fields where
  "named_ab_space = [(''id'', VString ''1''), (''name'', VString ''ab '')]"

definition named_ab :: fields where
  "named_ab = [(''id'', VString ''1''), (''name'', VString ''ab'')]"

definition two_pad_store_1 :: store where
  "two_pad_store_1 = snd (Save two_pad_model empty_store (Instance named_ab_space))"

definition two_pad_store_2 :: store where
  "two_pad_store_2 = snd (Save two_pad_model two_pad_store_1 (Instance named_ab))"

subsection \<open>Vocabulary of the order properties\<close>

text \<open>A fixed number of decimal digits, the last digit last.\<close>

fun fixed_digits :: "nat \<Rightarrow> int \<Rightarrow> string" where
  "fixed_digits 0 n = []"
| "fixed_digits (Suc k) n = fixed_digits k (n div 10) @ [digit (n mod 10)]"

text \<open>
  The encodings of two valid runes differ first at a byte that is smaller for the
  smaller rune.
\<close>

definition differ_at :: "string \<Rightarrow> string \<Rightarrow> bool" where
  "differ_at e f = (\<exists>q x y s1 s2. e = q @ x # s1 \<and> f = q @ y # s2 \<and> x < y)"

text \<open>The first byte tells the length of the encoding, and grows with it.\<close>

definition lead :: "int \<Rightarrow> int" where
  "lead r = (if r < 128 then r else if r < 2048 then 192 + r div 64
             else if r < 65536 then 224 + r div 4096 else 240 + r div 262144)"

text \<open>
  The runes whose descending image is a rune of its own: not the rune 0, whose image is
  the pad rune, and not a rune whose image is a surrogate half, which is written as the
  replacement character.
\<close>

definition reversible_rune :: "int \<Rightarrow> bool" where
  "reversible_rune c = (c \<noteq> 0 \<and> valid_rune (MaxRune - c))"

text \<open>Descending indexes, as a caller declares them from \<open>ByEquality\<close>.\<close>

definition desc_age :: Index where
  "desc_age = (ByEquality ''age'')
     \<lparr> Index.Order := \<lparr> Order.FieldName = ''age'', Order.Type = OrderTypeDesc \<rparr> \<rparr>"

definition desc_name :: Index where
  "desc_name = (ByEquality ''name'')
     \<lparr> Index.Order := \<lparr> Order.FieldName = ''name'', Order.Type = OrderTypeDesc \<rparr> \<rparr>"

text \<open>The user aged 30, saved under the descending index on \<open>age\<close>.\<close>

definition desc_age_model :: model where
  "desc_age_model = NewModel ''users'' [desc_age] None"

definition desc_age_store :: store where
  "desc_age_store = snd (Save desc_age_model empty_store (Instance user_aged_30))"

section \<open>Properties\<close>

subsection \<open>Deleting with an \<open>Equals\<close> query\<close>

text \<open>
  Claim C9. A query built with \<open>Equals\<close> carries ascending order and the default identity
  index is unordered, so the two never match; hence \<open>Delete (Equals "id" v)\<close> fails with
  the error that the delete query does not match the default index, for every value,
  model and store, and leaves the store as it was.
\<close>

theorem delete_equals_never_matches:
  "Order.Type (Query.Order (Equals f v)) = OrderTypeAsc
   \<and> Order.Type (Index.Order defaultIndex) = OrderTypeUnordered
   \<and> \<not> indexMatchesQuery defaultIndex (Equals f v)
   \<and> Delete d st (Equals ''id'' v)
       = (Inl (Err ''Delete query does not match default index''), st)"
  by (simp add: Equals_def defaultIndex_def ByEquality_def indexMatchesQuery_def Delete_def
        OrderTypeAsc_def OrderTypeUnordered_def)

subsection \<open>Values the key encoder has no case for\<close>

text \<open>
  Claim C3, as the code has it. For an equality index whose order value is of no
  supported kind (the nil interface, an array or an object), building the key panics
  with a message that names the runtime type and the order field. The failure is a
  panic, not a returned error: \<open>indexToKey\<close> returns a string only.
\<close>

theorem unsupported_kind_panics:
  assumes "Index.Type i = indexTypeEq"
    and "\<not> supported_kind (get_field entry (orderFieldKey i))"
  shows "indexToKey d i idv entry appendID =
           Inl (Panic (''bug in code, unhandled type: ''
                        @ typName (get_field entry (orderFieldKey i))
                        @ '' for field '' @ orderFieldKey i))"
  using assms
  by (cases "get_field entry (orderFieldKey i)")
     (simp_all add: indexToKey_def orderKeyPart_def supported_kind_def Let_def)

theorem unsupported_kind_panics_witness:
  "Index.Type (ByEquality ''age'') = indexTypeEq
   \<and> \<not> supported_kind (get_field [(''id'', VString ''1'')] (orderFieldKey (ByEquality ''age'')))
   \<and> indexToKey \<lparr>namespace = ''users'', indexes = [ByEquality ''age''],
                    options = \<lparr>Debug = False, IdIndex = defaultIndex\<rparr>\<rparr>
        (ByEquality ''age'') (VString ''1'') [(''id'', VString ''1'')] True
      = Inl (Panic ''bug in code, unhandled type: nil for field age'')"
proof -
  have a: "Index.Type (ByEquality ''age'') = indexTypeEq"
    by (simp add: ByEquality_def)
  have b: "\<not> supported_kind (get_field [(''id'', VString ''1'')] (orderFieldKey (ByEquality ''age'')))"
    by (simp add: supported_kind_def get_field_def orderFieldKey_def ordersByOtherField_def
          ByEquality_def)
  show ?thesis
    using a b unsupported_kind_panics [OF a b, of _ "VString ''1''" True]
    by (simp add: get_field_def orderFieldKey_def ordersByOtherField_def ByEquality_def)
qed

text \<open>
  The claim as the specification words it asks for a recoverable error. An array-valued
  indexed field makes the key encoder panic instead.
\<close>

theorem unsupported_kind_is_a_panic:
  "indexToKey \<lparr>namespace = ''users'', indexes = [ByEquality ''tags''],
                options = \<lparr>Debug = False, IdIndex = defaultIndex\<rparr>\<rparr>
     (ByEquality ''tags'') (VString ''1'')
     [(''id'', VString ''1''), (''tags'', VArray [VString ''a''])] True
   = Inl (Panic ''bug in code, unhandled type: []interface {} for field tags'')"
  by code_simp

subsection \<open>The store\<close>

lemma lookup_put: "map_of (put k v c) = (map_of c)(k \<mapsto> v)"
  by (induction c) (auto simp: fun_eq_iff)

lemma lookup_written [simp]:
  "lookup (written st k v) k' = (if k' = k then Some v else lookup st k')"
  by (simp add: lookup_def written_def lookup_put)

lemma map_of_filter_key:
  "map_of (filter (\<lambda>kv. fst kv \<noteq> k) c) k' = (if k' = k then None else map_of c k')"
  by (induction c) auto

lemma lookup_deleted [simp]:
  "lookup (deleted st k) k' = (if k' = k then None else lookup st k')"
  by (simp add: lookup_def deleted_def map_of_filter_key)

lemma lookup_attempted [simp]: "lookup (attempted st op) k = lookup st k"
  by (simp add: lookup_def attempted_def)

lemma issued_written [simp]: "issued (written st k v) = issued st @ [OpWrite k v]"
  by (simp add: written_def)

lemma issued_deleted [simp]: "issued (deleted st k) = issued st @ [OpDelete k]"
  by (simp add: deleted_def)

lemma issued_attempted [simp]: "issued (attempted st op) = issued st @ [op]"
  by (simp add: attempted_def)

text \<open>The two outcomes of a write and of a deletion.\<close>

lemma store_Write_cases:
  assumes "store_Write st k v = (res, st1)"
  shows "(res = Inl store_error \<and> st1 = attempted st (OpWrite k v))
       \<or> (res = Inr () \<and> st1 = written st k v)"
  using assms by (auto simp: store_Write_def split: if_splits)

lemma store_Delete_cases:
  assumes "store_Delete st k = (res, st1)"
  shows "(res = Inl store_error \<and> st1 = attempted st (OpDelete k))
       \<or> (res = Inr () \<and> st1 = deleted st k)"
  using assms by (auto simp: store_Delete_def split: if_splits)

subsection \<open>Keys and the keys a lookup scans\<close>



lemma get_field_single [simp]: "get_field [(f, v)] f = v"
  by (simp add: get_field_def)







subsection \<open>Deleting a record\<close>






subsection \<open>What a successful \<open>Save\<close> writes\<close>

text \<open>
  What one round of the loop does to the store when it succeeds: it writes the key of
  the record, after it has deleted the key of the old entry when it found that stale.
\<close>

lemma save_index_done:
  assumes "save_index d m idv old index st = (Inr u, st1)"
  shows "(\<exists>k. stale_entry m old index = Inr None \<and> indexToKey d index idv m True = Inr k
             \<and> st1 = written st k m)
       \<or> (\<exists>prev k0 k. stale_entry m old index = Inr (Some prev)
             \<and> indexToKey d index idv prev True = Inr k0
             \<and> indexToKey d index idv m True = Inr k
             \<and> st1 = written (deleted st k0) k m)"
proof (cases "stale_entry m old index")
  case (Inl p)
  with assms show ?thesis by (simp add: save_index_def)
next
  case (Inr stale)
  show ?thesis
  proof (cases stale)
    case None
    show ?thesis
    proof (cases "indexToKey d index idv m True")
      case (Inl p)
      with assms Inr None show ?thesis by (simp add: save_index_def)
    next
      case k: (Inr k)
      with assms Inr None have "store_Write st k m = (Inr u, st1)" by (simp add: save_index_def)
      from store_Write_cases [OF this] Inr None k show ?thesis by simp
    qed
  next
    case (Some prev')
    show ?thesis
    proof (cases "indexToKey d index idv prev' True")
      case (Inl p)
      with assms Inr Some show ?thesis by (simp add: save_index_def)
    next
      case k0: (Inr k0)
      obtain r1 s1 where d1: "store_Delete st k0 = (r1, s1)" by (cases "store_Delete st k0")
      from store_Delete_cases [OF d1] show ?thesis
      proof (elim disjE conjE)
        assume "r1 = Inl store_error" "s1 = attempted st (OpDelete k0)"
        with assms Inr Some k0 d1 show ?thesis by (simp add: save_index_def)
      next
        assume del: "r1 = Inr ()" "s1 = deleted st k0"
        show ?thesis
        proof (cases "indexToKey d index idv m True")
          case (Inl p)
          with assms Inr Some k0 d1 del show ?thesis by (simp add: save_index_def)
        next
          case k: (Inr k)
          with assms Inr Some k0 d1 del have "store_Write (deleted st k0) k m = (Inr u, st1)"
            by (simp add: save_index_def)
          from store_Write_cases [OF this] Inr Some k0 k show ?thesis by simp
        qed
      qed
    qed
  qed
qed

lemma save_index_journal:
  assumes "save_index d m idv old index st = (Inr u, st1)"
  shows "\<exists>ops k. issued st1 = issued st @ ops \<and> (\<forall>k' v. OpWrite k' v \<in> set ops \<longrightarrow> v = m)
            \<and> indexToKey d index idv m True = Inr k \<and> OpWrite k m \<in> set ops"
proof -
  from save_index_done [OF assms] show ?thesis
  proof (elim disjE exE conjE)
    fix k assume "indexToKey d index idv m True = Inr k" "st1 = written st k m"
    then have "issued st1 = issued st @ [OpWrite k m]
        \<and> (\<forall>k' v. OpWrite k' v \<in> set [OpWrite k m] \<longrightarrow> v = m)
        \<and> indexToKey d index idv m True = Inr k \<and> OpWrite k m \<in> set [OpWrite k m]" by simp
    then show ?thesis by blast
  next
    fix prev' k0 k assume "indexToKey d index idv m True = Inr k" "st1 = written (deleted st k0) k m"
    then have "issued st1 = issued st @ [OpDelete k0, OpWrite k m]
        \<and> (\<forall>k' v. OpWrite k' v \<in> set [OpDelete k0, OpWrite k m] \<longrightarrow> v = m)
        \<and> indexToKey d index idv m True = Inr k \<and> OpWrite k m \<in> set [OpDelete k0, OpWrite k m]"
      by simp
    then show ?thesis by blast
  qed
qed

lemma save_indexes_journal:
  "save_indexes d m idv old ixs st = (Inr u, st') \<Longrightarrow>
     \<exists>ops. issued st' = issued st @ ops \<and> (\<forall>k v. OpWrite k v \<in> set ops \<longrightarrow> v = m)
        \<and> (\<forall>i \<in> set ixs. \<exists>k. indexToKey d i idv m True = Inr k \<and> OpWrite k m \<in> set ops)"
proof (induction ixs arbitrary: st)
  case Nil
  then show ?case by simp
next
  case (Cons index rest)
  obtain r1 st1 where step: "save_index d m idv old index st = (r1, st1)"
    by (cases "save_index d m idv old index st")
  with Cons.prems obtain u1 where r1: "r1 = Inr u1"
    and rest: "save_indexes d m idv old rest st1 = (Inr u, st')"
    by (cases r1) simp_all
  from save_index_journal [OF step [unfolded r1]] obtain ops1 k1 where
    o1: "issued st1 = issued st @ ops1" "\<forall>k v. OpWrite k v \<in> set ops1 \<longrightarrow> v = m"
      "indexToKey d index idv m True = Inr k1" "OpWrite k1 m \<in> set ops1" by blast
  from Cons.IH [OF rest] obtain ops2 where
    o2: "issued st' = issued st1 @ ops2" "\<forall>k v. OpWrite k v \<in> set ops2 \<longrightarrow> v = m"
      "\<forall>i \<in> set rest. \<exists>k. indexToKey d i idv m True = Inr k \<and> OpWrite k m \<in> set ops2" by blast
  have a: "issued st' = issued st @ (ops1 @ ops2)" using o1(1) o2(1) by simp
  have b: "\<forall>k v. OpWrite k v \<in> set (ops1 @ ops2) \<longrightarrow> v = m" using o1(2) o2(2) by auto
  have c: "\<forall>i \<in> set (index # rest).
             \<exists>k. indexToKey d i idv m True = Inr k \<and> OpWrite k m \<in> set (ops1 @ ops2)"
    using o1(3,4) o2(3) by auto
  from a b c show ?case by blast
qed

text \<open>
  A key that holds the record keeps it through the rest of the loop, unless a later
  index deletes it as the key of the old entry.
\<close>

lemma save_indexes_holds:
  "save_indexes d m idv old ys st = (Inr u, st') \<Longrightarrow>
   lookup st k = Some m \<or> lookup st k = None \<and> R \<Longrightarrow>
   lookup st' k = Some m
   \<or> lookup st' k = None
     \<and> (R \<or> (\<exists>j \<in> set ys. \<exists>prev. stale_entry m old j = Inr (Some prev)
                 \<and> indexToKey d j idv prev True = Inr k))"
proof (induction ys arbitrary: st R)
  case Nil
  then show ?case by auto
next
  case (Cons j rest)
  let ?S = "\<lambda>j. \<exists>prev. stale_entry m old j = Inr (Some prev) \<and> indexToKey d j idv prev True = Inr k"
  obtain r1 st1 where step: "save_index d m idv old j st = (r1, st1)"
    by (cases "save_index d m idv old j st")
  with Cons.prems(1) obtain u1 where r1: "r1 = Inr u1"
    and rest: "save_indexes d m idv old rest st1 = (Inr u, st')"
    by (cases r1) simp_all
  have mid: "lookup st1 k = Some m \<or> lookup st1 k = None \<and> (R \<or> ?S j)"
    using save_index_done [OF step [unfolded r1]] Cons.prems(2) by (auto split: if_splits)
  from Cons.IH [OF rest mid]
  have "lookup st' k = Some m
      \<or> lookup st' k = None \<and> ((R \<or> ?S j) \<or> (\<exists>j' \<in> set rest. ?S j'))" .
  then show ?case by auto
qed

lemma save_indexes_append:
  "save_indexes d m idv old (xs @ ys) st =
     (case save_indexes d m idv old xs st of
        (Inl p, st1) \<Rightarrow> (Inl p, st1)
      | (Inr _, st1) \<Rightarrow> save_indexes d m idv old ys st1)"
proof (induction xs arbitrary: st)
  case Nil
  show ?case by simp
next
  case (Cons x xs)
  show ?case
  proof (cases "save_index d m idv old x st")
    case (Pair r1 st1)
    then show ?thesis using Cons.IH [of st1] by (cases r1) simp_all
  qed
qed

lemma save_indexes_key:
  assumes "save_indexes d m idv old (xs @ i # ys) st = (Inr u, st')"
  shows "\<exists>k. indexToKey d i idv m True = Inr k
            \<and> (lookup st' k = Some m
               \<or> lookup st' k = None
                 \<and> (\<exists>j \<in> set ys. \<exists>prev. stale_entry m old j = Inr (Some prev)
                        \<and> indexToKey d j idv prev True = Inr k))"
proof -
  obtain r1 st1 where a: "save_indexes d m idv old xs st = (r1, st1)"
    by (cases "save_indexes d m idv old xs st")
  with assms have b: "save_indexes d m idv old (i # ys) st1 = (Inr u, st')"
    by (cases r1) (simp_all add: save_indexes_append)
  obtain r2 st2 where c: "save_index d m idv old i st1 = (r2, st2)"
    by (cases "save_index d m idv old i st1")
  with b obtain u2 where r2: "r2 = Inr u2"
    and rest: "save_indexes d m idv old ys st2 = (Inr u, st')"
    by (cases r2) simp_all
  from save_index_done [OF c [unfolded r2]] obtain k where
    k: "indexToKey d i idv m True = Inr k" and h: "lookup st2 k = Some m" by auto
  from h have "lookup st2 k = Some m \<or> lookup st2 k = None \<and> False" by simp
  from save_indexes_holds [OF rest this] k show ?thesis by auto
qed

text \<open>
  Claim C10, as the code has it. Every write that a successful \<open>Save\<close> issues carries
  the same value, the serialized record. For each index of the loop, the declared ones
  and then the identity index, the key of the saved record is written, and afterwards
  it holds that value, with one exception: the key can be absent when an index later in
  the loop found the old entry stale and the key it deleted for the old entry is this
  very key. The key of the identity index, the last of the loop, always holds the value.
  (Keys that earlier calls wrote for other field values are not keys of the saved
  record, and nothing is said of them.)
\<close>

theorem save_writes_one_value:
  assumes "Save d st (Instance m) = (Inr u, st')"
  shows "\<exists>ops olds.
           issued st' = issued st @ ops
         \<and> (\<forall>k v. OpWrite k v \<in> set ops \<longrightarrow> v = m)
         \<and> List d st (ToQuery (IdIndex (options d))
                        (get_field m (Index.FieldName (IdIndex (options d))))) = Inr olds
         \<and> (\<forall>xs i ys. model.indexes d @ [IdIndex (options d)] = xs @ i # ys \<longrightarrow>
              (\<exists>k. indexToKey d i (get_field m (Index.FieldName (IdIndex (options d)))) m True
                      = Inr k
                 \<and> OpWrite k m \<in> set ops
                 \<and> (lookup st' k = Some m
                    \<or> lookup st' k = None
                      \<and> (\<exists>j \<in> set ys. \<exists>prev.
                            stale_entry m (first_entry olds) j = Inr (Some prev)
                          \<and> indexToKey d j (get_field m (Index.FieldName (IdIndex (options d))))
                                prev True = Inr k))))
         \<and> (\<exists>k. indexToKey d (IdIndex (options d))
                    (get_field m (Index.FieldName (IdIndex (options d)))) m True = Inr k
                 \<and> lookup st' k = Some m)"
proof -
  let ?idv = "get_field m (Index.FieldName (IdIndex (options d)))"
  let ?ixs = "model.indexes d @ [IdIndex (options d)]"
  from assms obtain olds where
    l: "List d st (ToQuery (IdIndex (options d)) ?idv) = Inr olds"
    and s: "save_indexes d m ?idv (first_entry olds) ?ixs st = (Inr u, st')"
    by (auto simp: Save_def Let_def first_entry_def split: sum.splits)
  from save_indexes_journal [OF s] obtain ops where
    jr: "issued st' = issued st @ ops" "\<forall>k v. OpWrite k v \<in> set ops \<longrightarrow> v = m"
      "\<forall>i \<in> set ?ixs. \<exists>k. indexToKey d i ?idv m True = Inr k \<and> OpWrite k m \<in> set ops"
    by blast
  have each: "\<exists>k. indexToKey d i ?idv m True = Inr k
                 \<and> OpWrite k m \<in> set ops
                 \<and> (lookup st' k = Some m
                    \<or> lookup st' k = None
                      \<and> (\<exists>j \<in> set ys. \<exists>prev.
                            stale_entry m (first_entry olds) j = Inr (Some prev)
                          \<and> indexToKey d j ?idv prev True = Inr k))"
    if dec: "?ixs = xs @ i # ys" for xs i ys
  proof -
    from dec have "i \<in> set ?ixs" by simp
    with jr(3) obtain k where k: "indexToKey d i ?idv m True = Inr k" "OpWrite k m \<in> set ops"
      by blast
    from save_indexes_key [OF s [unfolded dec]] k show ?thesis by auto
  qed
  have last: "\<exists>k. indexToKey d (IdIndex (options d)) ?idv m True = Inr k \<and> lookup st' k = Some m"
    using save_indexes_key [of d m ?idv "first_entry olds" "model.indexes d" "IdIndex (options d)" "[]"]
      s by auto
  from l jr(1,2) each last show ?thesis by blast
qed

text \<open>
  The user saved again with another age: the key of the index on \<open>age\<close> and the key
  of the identity index both hold the new record.
\<close>

theorem save_writes_one_value_witness:
  "Save age_model age_store_1 (Instance user_aged_31) = (Inr (), age_store_2)
   \<and> (\<exists>ops olds.
           issued age_store_2 = issued age_store_1 @ ops
         \<and> (\<forall>k v. OpWrite k v \<in> set ops \<longrightarrow> v = user_aged_31)
         \<and> List age_model age_store_1 (ToQuery (IdIndex (options age_model))
                (get_field user_aged_31 (Index.FieldName (IdIndex (options age_model))))) = Inr olds
         \<and> (\<forall>xs i ys. model.indexes age_model @ [IdIndex (options age_model)] = xs @ i # ys \<longrightarrow>
              (\<exists>k. indexToKey age_model i
                      (get_field user_aged_31 (Index.FieldName (IdIndex (options age_model))))
                      user_aged_31 True = Inr k
                 \<and> OpWrite k user_aged_31 \<in> set ops
                 \<and> (lookup age_store_2 k = Some user_aged_31
                    \<or> lookup age_store_2 k = None
                      \<and> (\<exists>j \<in> set ys. \<exists>prev.
                            stale_entry user_aged_31 (first_entry olds) j = Inr (Some prev)
                          \<and> indexToKey age_model j
                              (get_field user_aged_31 (Index.FieldName (IdIndex (options age_model))))
                              prev True = Inr k))))
         \<and> (\<exists>k. indexToKey age_model (IdIndex (options age_model))
                    (get_field user_aged_31 (Index.FieldName (IdIndex (options age_model))))
                    user_aged_31 True = Inr k
                 \<and> lookup age_store_2 k = Some user_aged_31))
   \<and> lookup age_store_2 ''users:byOrderedAge:0000000000000000031:1'' = Some user_aged_31
   \<and> lookup age_store_2 ''users:byId:1:1'' = Some user_aged_31"
proof -
  have h: "Save age_model age_store_1 (Instance user_aged_31) = (Inr (), age_store_2)"
    by code_simp
  have e1: "lookup age_store_2 ''users:byOrderedAge:0000000000000000031:1'' = Some user_aged_31"
    by code_simp
  have e2: "lookup age_store_2 ''users:byId:1:1'' = Some user_aged_31"
    by code_simp
  from h save_writes_one_value [OF h] e1 e2 show ?thesis by blast
qed

text \<open>
  The claim as the specification words it has every index key of the record hold the
  value after \<open>Save\<close>. With two indexes on the same field that pad to different
  lengths, the second index finds the old entry stale, and the key it deletes for the
  old entry is the key the first index has just written for the saved record.
\<close>

theorem save_can_drop_an_index_key:
  "Save two_pad_model two_pad_store_1 (Instance named_ab) = (Inr (), two_pad_store_2)
   \<and> model.indexes two_pad_model = [name_pad_3, name_pad_1]
   \<and> indexToKey two_pad_model name_pad_3 (VString ''1'') named_ab True
        = Inr ''u:byOrderedName:ab :1''
   \<and> indexToKey two_pad_model name_pad_1 (VString ''1'') named_ab_space True
        = Inr ''u:byOrderedName:ab :1''
   \<and> lookup two_pad_store_2 ''u:byOrderedName:ab :1'' = None"
  by code_simp

subsection \<open>The uniqueness check\<close>





lemma matches_own_query [simp]: "indexMatchesQuery i (ToQuery i v)"
  by (simp add: indexMatchesQuery_def ToQuery_def)

lemma Value_ToQuery [simp]: "Value (ToQuery i v) = v"
  by (simp add: ToQuery_def)








subsection \<open>Saving a changed numeric field\<close>

text \<open>
  Claim C1, evaluated where the code departs from it. A user is saved with age 30 and
  saved again, under the same identity, with age 31. \<open>Save\<close> reads the old entry with
  \<open>List\<close>, which decodes numbers to \<open>float64\<close>, so the stale key it computes and deletes
  is \<open>users:byOrderedAge:30:1\<close>, while the key written by the first save is
  \<open>users:byOrderedAge:0000000000000000030:1\<close>. That key stays in the store, and a lookup
  by the old value still finds the record, in its old version.
\<close>

lemma faulty_deleted [simp]: "faulty (deleted st k) = faulty st"
  by (simp add: deleted_def)

text \<open>
  For a string field the comparison and the key of the old entry are what the claim
  expects: the round of the loop deletes the key of the old value and writes the key of
  the new one.
\<close>

lemma save_index_replaces_string_key:
  assumes "\<not> indexesMatch defaultIndex index"
    and "get_field old (Index.FieldName index) = VString a"
    and "get_field m (Index.FieldName index) = VString b" and "a \<noteq> b"
    and "indexToKey d index idv old True = Inr k0"
    and "indexToKey d index idv m True = Inr k"
    and "k0 \<notin> set (faulty st)" and "k \<notin> set (faulty st)"
  shows "save_index d m idv (Some old) index st = (Inr (), written (deleted st k0) k m)"
  using assms by (simp add: save_index_def stale_entry_def store_Delete_def store_Write_def)

theorem stale_numeric_key_survives:
  "Save age_model empty_store (Instance user_aged_30) = (Inr (), age_store_1)
   \<and> Save age_model age_store_1 (Instance user_aged_31) = (Inr (), age_store_2)
   \<and> indexToKey age_model (ByEquality ''age'') (VString ''1'') user_aged_30 True
        = Inr ''users:byOrderedAge:0000000000000000030:1''
   \<and> issued age_store_2 = issued age_store_1 @
        [OpDelete ''users:byOrderedAge:30:1'',
         OpWrite ''users:byOrderedAge:0000000000000000031:1'' user_aged_31,
         OpWrite ''users:byId:1:1'' user_aged_31]
   \<and> lookup age_store_2 ''users:byOrderedAge:0000000000000000030:1'' = Some user_aged_30
   \<and> List age_model age_store_2 (ToQuery (ByEquality ''age'') (VInt 30))
        = Inr [[(''id'', VString ''1''),
                (''age'', VFloat64 (Float64 ''30'' ''1.7976931348623157e+308''))]]"
  by code_simp

subsection \<open>Saving a record without identity\<close>

text \<open>
  The earlier \<open>db\<close> variant refuses a record whose keys \<open>ID\<close> and \<open>id\<close> hold no
  non-empty string, before any write.
\<close>

lemma db_Save_missing_identity:
  assumes "Unmarshal [js] = Inr [m]"
    and "string_id m ''ID'' = None" and "string_id m ''id'' = None"
  shows "db_Save d st (Instance js) = (Inl missing_id_error, st)"
  using assms by (simp add: db_Save_def)

text \<open>
  Claim C4, evaluated where the code departs from it. \<open>Save\<close> of the model has no such
  check. A record whose identity is the empty string is saved under the key
  \<open>users:byId::\<close>. A record without identity makes \<open>Save\<close> panic at the identity index,
  after it has written the key of the declared index.
\<close>

theorem save_accepts_missing_identity:
  "Save bare_model empty_store (Instance [(''id'', VString [])])
     = (Inr (), \<lparr> contents = [(''users:byId::'', [(''id'', VString [])])],
                  issued = [OpWrite ''users:byId::'' [(''id'', VString [])]], faulty = [] \<rparr>)
   \<and> Save age_model empty_store (Instance [(''age'', number_30)])
     = (Inl (Panic ''bug in code, unhandled type: nil for field id''),
        \<lparr> contents = [(''users:byOrderedAge:0000000000000000030:<nil>'', [(''age'', number_30)])],
          issued = [OpWrite ''users:byOrderedAge:0000000000000000030:<nil>''
                      [(''age'', number_30)]], faulty = [] \<rparr>)"
  by code_simp

subsection \<open>Bytes, and the lexicographic order of keys\<close>

lemma char_less_int: "c1 < c2 \<longleftrightarrow> (of_char c1 :: int) < of_char c2"
proof -
  have "(of_char c1 :: int) = int (of_char c1)" "(of_char c2 :: int) = int (of_char c2)"
    by (simp_all add: of_nat_of_char)
  then show ?thesis by (simp add: less_char_def)
qed

lemma byte_less:
  fixes m n :: int
  assumes "0 \<le> m" "m < n" "n < 256"
  shows "(char_of m :: char) < char_of n"
  using assms by (simp add: char_less_int)

text \<open>Lexicographic order and concatenation.\<close>

lemma less_append_same_length:
  fixes xs ys :: "'a::linorder list"
  shows "length xs = length ys \<Longrightarrow> xs < ys \<Longrightarrow> xs @ u < ys @ v"
proof (induction xs arbitrary: ys)
  case Nil
  then show ?case by simp
next
  case (Cons x xs)
  then obtain y ys' where ys: "ys = y # ys'" by (cases ys) auto
  with Cons show ?case by auto
qed

lemma less_same_prefix:
  fixes p :: "'a::linorder list"
  shows "p @ u < p @ v \<longleftrightarrow> u < v"
  by (induction p) auto

lemma less_at_difference:
  fixes p :: "'a::linorder list"
  shows "a < b \<Longrightarrow> p @ a # s < p @ b # t"
  by (simp add: less_same_prefix)

lemma length_fixed_digits [simp]: "length (fixed_digits k n) = k"
  by (induction k arbitrary: n) auto

lemma fixed_digits_zero: "fixed_digits k 0 = replicate k CHR ''0''"
proof (induction k)
  case 0
  show ?case by simp
next
  case (Suc k)
  have "digit 0 = CHR ''0''" by (simp add: digit_def char_of_def)
  with Suc show ?case by (simp add: replicate_append_same)
qed

lemma fixed_digits_dec:
  "0 \<le> n \<Longrightarrow> n < 10 ^ k \<Longrightarrow> 0 < k \<Longrightarrow>
     length (dec_digits n) \<le> k
     \<and> fixed_digits k n = replicate (k - length (dec_digits n)) CHR ''0'' @ dec_digits n"
proof (induction k arbitrary: n)
  case 0
  then show ?case by simp
next
  case (Suc k)
  show ?case
  proof (cases "n < 10")
    case True
    with Suc.prems have "n div 10 = 0" "n mod 10 = n" by simp_all
    moreover from True have "dec_digits n = [digit n]" by (simp add: dec_digits.simps)
    ultimately show ?thesis by (simp add: fixed_digits_zero)
  next
    case False
    with Suc.prems have k: "0 < k" by (cases k) auto
    from False Suc.prems have "0 \<le> n div 10" "n div 10 < 10 ^ k" by auto
    from Suc.IH [OF this k] have
      ih: "length (dec_digits (n div 10)) \<le> k"
        "fixed_digits k (n div 10)
           = replicate (k - length (dec_digits (n div 10))) CHR ''0'' @ dec_digits (n div 10)"
      by simp_all
    from False have d: "dec_digits n = dec_digits (n div 10) @ [digit (n mod 10)]"
      by (subst dec_digits.simps) simp
    from ih d show ?thesis by simp
  qed
qed

lemma fmt_019d_fixed:
  assumes "0 \<le> n" "n < 10 ^ 19"
  shows "fmt_019d n = fixed_digits 19 n"
  using fixed_digits_dec [OF assms] assms(1) by (simp add: fmt_019d_def zero_pad_def)

lemma digit_less: "0 \<le> a \<Longrightarrow> a < b \<Longrightarrow> b < 10 \<Longrightarrow> digit a < digit b"
  by (simp add: digit_def byte_less)

lemma fixed_digits_strict_mono:
  "0 \<le> a \<Longrightarrow> a < b \<Longrightarrow> b < 10 ^ k \<Longrightarrow> fixed_digits k a < fixed_digits k b"
proof (induction k arbitrary: a b)
  case 0
  then show ?case by simp
next
  case (Suc k)
  from Suc.prems have le: "a div 10 \<le> b div 10" by (simp add: zdiv_mono1)
  show ?case
  proof (cases "a div 10 = b div 10")
    case True
    with Suc.prems have "a mod 10 < b mod 10" by presburger
    moreover have "0 \<le> a mod 10" "b mod 10 < 10" by simp_all
    ultimately have "digit (a mod 10) < digit (b mod 10)" by (intro digit_less)
    with True show ?thesis by (simp add: less_same_prefix)
  next
    case False
    with le have lt: "a div 10 < b div 10" by simp
    from Suc.prems have "0 \<le> a div 10" "b div 10 < 10 ^ k" by auto
    from Suc.IH [OF this(1) lt this(2)]
    have "fixed_digits k (a div 10) < fixed_digits k (b div 10)" .
    then show ?thesis by (simp add: less_append_same_length)
  qed
qed

subsection \<open>Descending integers\<close>

lemma wrap64_id: "- 9223372036854775808 \<le> x \<Longrightarrow> x < 9223372036854775808 \<Longrightarrow> wrap64 x = x"
  by (simp add: wrap64_def)

text \<open>
  The cases \<open>int64\<close> and \<open>json.Number\<close> subtract the value from \<open>math.MaxInt64\<close>: for
  integers \<open>0 \<le> a < b\<close> the key part of \<open>b\<close> is below the key part of \<open>a\<close>, and both
  have 19 digits.
\<close>

lemma desc_int64_part:
  assumes "0 \<le> a" "a < b" "b \<le> MaxInt64"
  shows "fmt_019d (wrap64 (MaxInt64 - b)) < fmt_019d (wrap64 (MaxInt64 - a))"
    and "length (fmt_019d (wrap64 (MaxInt64 - a))) = 19"
    and "length (fmt_019d (wrap64 (MaxInt64 - b))) = 19"
proof -
  from assms have w: "wrap64 (MaxInt64 - a) = MaxInt64 - a" "wrap64 (MaxInt64 - b) = MaxInt64 - b"
    by (simp_all add: wrap64_id MaxInt64_def)
  have a: "0 \<le> MaxInt64 - a" "MaxInt64 - a < 10 ^ 19"
    and b: "0 \<le> MaxInt64 - b" "MaxInt64 - b < 10 ^ 19" and lt: "MaxInt64 - b < MaxInt64 - a"
    using assms by (simp_all add: MaxInt64_def)
  from fixed_digits_strict_mono [OF b(1) lt a(2)] fmt_019d_fixed [OF a] fmt_019d_fixed [OF b] w
  show "fmt_019d (wrap64 (MaxInt64 - b)) < fmt_019d (wrap64 (MaxInt64 - a))" by simp
  from fmt_019d_fixed [OF a] w show "length (fmt_019d (wrap64 (MaxInt64 - a))) = 19" by simp
  from fmt_019d_fixed [OF b] w show "length (fmt_019d (wrap64 (MaxInt64 - b))) = 19" by simp
qed

lemma descending_int64_order:
  assumes desc: "Order.Type (Index.Order i) = OrderTypeDesc"
    and ab: "0 \<le> a" "a < b" "b \<le> MaxInt64"
  shows "\<exists>ka kb. orderKeyPart d i k (VInt64 a) = Inr ka \<and> orderKeyPart d i k (VInt64 b) = Inr kb
            \<and> length ka = 19 \<and> length kb = 19 \<and> kb < ka"
  using desc desc_int64_part [OF ab] by (simp add: orderKeyPart_def Let_def)

lemma descending_json_Number_order:
  assumes desc: "Order.Type (Index.Order i) = OrderTypeDesc"
    and ab: "0 \<le> a" "a < b" "b \<le> MaxInt64"
    and lit: "ParseInt sa = Some a" "ParseInt sb = Some b"
  shows "\<exists>ka kb. orderKeyPart d i k (VNumber sa fa) = Inr ka
            \<and> orderKeyPart d i k (VNumber sb fb) = Inr kb
            \<and> length ka = 19 \<and> length kb = 19 \<and> kb < ka"
  using desc lit desc_int64_part [OF ab] by (simp add: orderKeyPart_def Let_def)

text \<open>
  Claim C5, evaluated where the code departs from it. The case \<open>int\<close> subtracts the
  value from \<open>math.MaxInt32\<close>, where the cases \<open>int64\<close> and \<open>json.Number\<close> subtract it
  from \<open>math.MaxInt64\<close>. The same value 30 gets another key part as an \<open>int\<close> than as
  an \<open>int64\<close> or a \<open>json.Number\<close>, so under a descending index a lookup by the \<open>int\<close>
  30 does not find the record that \<open>Save\<close> stored with the age 30, which a lookup by
  the \<open>int64\<close> 30 finds. And for the \<open>int\<close> values 2147483648 and 2147483649 the
  difference is negative: the key part of the larger value is the larger one, so
  their order is not reversed.
\<close>

theorem descending_int_subtracts_MaxInt32:
  "orderKeyPart bare_model desc_age ''age'' (VInt64 30) = Inr ''9223372036854775777''
   \<and> orderKeyPart bare_model desc_age ''age'' number_30 = Inr ''9223372036854775777''
   \<and> orderKeyPart bare_model desc_age ''age'' (VInt 30) = Inr ''0000000002147483617''
   \<and> lookup desc_age_store ''users:byDescOrderedAge:9223372036854775777:1'' = Some user_aged_30
   \<and> List desc_age_model desc_age_store (ToQuery desc_age (VInt64 30))
        = Inr [[(''id'', VString ''1''),
                (''age'', VFloat64 (Float64 ''30'' ''1.7976931348623157e+308''))]]
   \<and> List desc_age_model desc_age_store (ToQuery desc_age (VInt 30)) = Inr []
   \<and> orderKeyPart bare_model desc_age ''age'' (VInt 2147483648) = Inr ''-000000000000000001''
   \<and> orderKeyPart bare_model desc_age ''age'' (VInt 2147483649) = Inr ''-000000000000000002''
   \<and> ''-000000000000000001'' < ''-000000000000000002''"
  by code_simp

subsection \<open>Ascending strings\<close>

lemma string_of_runes_append [simp]:
  "string_of_runes (xs @ ys) = string_of_runes xs @ string_of_runes ys"
  by (simp add: string_of_runes_def)

lemma string_of_runes_Cons:
  "string_of_runes (r # rs) = encode_rune (if valid_rune r then r else RuneError) @ string_of_runes rs"
  by (simp add: string_of_runes_def)

lemma valid_RuneError: "valid_rune RuneError"
  by (simp add: valid_rune_def RuneError_def MaxRune_def)

text \<open>The first byte of the encoding of a rune above the space is above the space.\<close>

lemma encode_rune_above_space:
  assumes "valid_rune r" "32 < r"
  shows "\<exists>y ys. encode_rune r = y # ys \<and> CHR '' '' < y"
proof -
  have sp: "CHR '' '' = (char_of (32::int) :: char)" by (simp add: char_of_def)
  from assms have r: "r \<le> 1114111" by (simp add: valid_rune_def MaxRune_def)
  consider "r < 128" | "128 \<le> r" "r < 2048" | "2048 \<le> r" "r < 65536" | "65536 \<le> r" by linarith
  then show ?thesis
  proof cases
    case 1
    with assms show ?thesis by (simp add: encode_rune_def byte_def sp byte_less)
  next
    case 2
    then have "(32::int) < 192 + r div 64" "192 + r div 64 < 256" by simp_all
    with 2 show ?thesis by (simp add: encode_rune_def byte_def sp byte_less)
  next
    case 3
    then have "(32::int) < 224 + r div 4096" "224 + r div 4096 < 256" by simp_all
    with 3 show ?thesis by (simp add: encode_rune_def byte_def sp byte_less)
  next
    case 4
    with r have "(32::int) < 240 + r div 262144" "240 + r div 262144 < 256" by simp_all
    with 4 show ?thesis by (simp add: encode_rune_def byte_def sp byte_less)
  qed
qed

lemma asc_not_desc: "OrderTypeAsc \<noteq> OrderTypeDesc"
  by (simp add: OrderTypeAsc_def OrderTypeDesc_def)

lemma asc_key_form:
  assumes "Order.Type (Index.Order i) = OrderTypeAsc"
  shows "\<exists>pad. getOrderedStringFieldKey d i v = string_of_runes (runes_of v @ pad)"
proof (cases "int (length (runes_of v)) < StringOrderPadLength i")
  case True
  with assms have "getOrderedStringFieldKey d i v
      = string_of_runes (runes_of v
          @ replicate (nat (StringOrderPadLength i - int (length (runes_of v)))) 32)"
    by (simp add: getOrderedStringFieldKey_def Let_def asc_not_desc)
  then show ?thesis by blast
next
  case False
  with assms have "getOrderedStringFieldKey d i v = string_of_runes (runes_of v @ [])"
    by (simp add: getOrderedStringFieldKey_def Let_def asc_not_desc)
  then show ?thesis by blast
qed

text \<open>
  Claim C7, as the code has it. Under an ascending index with pad length \<open>L\<close>, let
  \<open>s\<close> have fewer than \<open>L\<close> runes and let the runes of \<open>t\<close> continue those of \<open>s\<close> with a
  rune above the space. Then the key part of \<open>s\<close> is below the key part of \<open>t\<close>.
\<close>

theorem ascending_prefix_order:
  assumes asc: "Order.Type (Index.Order i) = OrderTypeAsc"
    and short: "int (length (runes_of s)) < StringOrderPadLength i"
    and ext: "runes_of t = runes_of s @ c # rest"
    and c: "32 < c"
  shows "getOrderedStringFieldKey d i s < getOrderedStringFieldKey d i t"
proof -
  let ?L = "StringOrderPadLength i"
  let ?c = "if valid_rune c then c else RuneError"
  from short obtain n where n: "nat (?L - int (length (runes_of s))) = Suc n"
    by (cases "nat (?L - int (length (runes_of s)))") auto
  have v32: "valid_rune 32" by (simp add: valid_rune_def MaxRune_def)
  have e32: "encode_rune 32 = [CHR '' '']" by (simp add: encode_rune_def byte_def char_of_def)
  have ks: "getOrderedStringFieldKey d i s
              = string_of_runes (runes_of s) @ CHR '' '' # string_of_runes (replicate n 32)"
    using asc short n v32 e32
    by (simp add: getOrderedStringFieldKey_def Let_def asc_not_desc string_of_runes_Cons)
  from asc_key_form [OF asc, of d t] obtain pad where
    "getOrderedStringFieldKey d i t = string_of_runes (runes_of t @ pad)" by blast
  with ext have kt: "getOrderedStringFieldKey d i t
              = string_of_runes (runes_of s) @ encode_rune ?c @ string_of_runes (rest @ pad)"
    by (simp add: string_of_runes_Cons)
  have "valid_rune ?c" by (simp add: valid_RuneError)
  moreover have "32 < ?c" using c by (simp add: RuneError_def)
  ultimately have "\<exists>y ys. encode_rune ?c = y # ys \<and> CHR '' '' < y"
    by (rule encode_rune_above_space)
  then obtain y ys where
    y: "encode_rune ?c = y # ys" "CHR '' '' < y" by blast
  from ks kt y show ?thesis by (simp add: less_same_prefix)
qed

theorem ascending_prefix_order_witness:
  "Order.Type (Index.Order (ByEquality ''name'')) = OrderTypeAsc
   \<and> int (length (runes_of ''a'')) < StringOrderPadLength (ByEquality ''name'')
   \<and> runes_of ''ab'' = runes_of ''a'' @ 98 # []
   \<and> (32::int) < 98
   \<and> getOrderedStringFieldKey bare_model (ByEquality ''name'') ''a''
       < getOrderedStringFieldKey bare_model (ByEquality ''name'') ''ab''"
proof -
  have h1: "Order.Type (Index.Order (ByEquality ''name'')) = OrderTypeAsc" by code_simp
  have h2: "int (length (runes_of ''a'')) < StringOrderPadLength (ByEquality ''name'')"
    by code_simp
  have h3: "runes_of ''ab'' = runes_of ''a'' @ 98 # []" by code_simp
  have h4: "(32::int) < 98" by simp
  from h1 h2 h3 h4 ascending_prefix_order [OF h1 h2 h3 h4, of bare_model]
  show ?thesis by blast
qed

text \<open>
  The claim as the specification words it has no condition on the rune that follows the
  prefix. A tab sorts below the pad rune, so the longer string comes first.
\<close>

theorem ascending_prefix_control_character:
  "int (length (runes_of ''a'')) < StringOrderPadLength (ByEquality ''name'')
   \<and> runes_of [CHR ''a'', CHR 0x09] = runes_of ''a'' @ 9 # []
   \<and> getOrderedStringFieldKey bare_model (ByEquality ''name'') [CHR ''a'', CHR 0x09]
       < getOrderedStringFieldKey bare_model (ByEquality ''name'') ''a''"
  by code_simp

subsection \<open>Descending strings\<close>

lemma list_less_cases:
  fixes xs ys :: "'a::linorder list"
  assumes "xs < ys"
  shows "(\<exists>c r. ys = xs @ c # r)
       \<or> (\<exists>p x y r1 r2. xs = p @ x # r1 \<and> ys = p @ y # r2 \<and> x < y)"
  using assms
proof (induction xs arbitrary: ys)
  case Nil
  then show ?case by (cases ys) auto
next
  case (Cons a xs)
  then obtain b ys' where ys: "ys = b # ys'" by (cases ys) auto
  show ?case
  proof (cases "a < b")
    case True
    then have "a # xs = [] @ a # xs \<and> ys = [] @ b # ys' \<and> a < b" using ys by simp
    then show ?thesis by blast
  next
    case False
    with Cons.prems ys have ab: "a = b" and lt: "xs < ys'" by auto
    from Cons.IH [OF lt] show ?thesis
    proof (elim disjE exE conjE)
      fix c r assume "ys' = xs @ c # r"
      with ab ys show ?thesis by simp
    next
      fix p x y r1 r2 assume "xs = p @ x # r1" "ys' = p @ y # r2" "x < y"
      with ab ys have "a # xs = (a # p) @ x # r1 \<and> ys = (a # p) @ y # r2 \<and> x < y" by simp
      then show ?thesis by blast
    qed
  qed
qed

lemma div_mod_64_less:
  fixes u v :: int
  assumes "u < v"
  shows "u div 64 < v div 64 \<or> (u div 64 = v div 64 \<and> u mod 64 < v mod 64)"
proof (cases "u div 64 = v div 64")
  case True
  have "64 * (u div 64) + u mod 64 = u" "64 * (v div 64) + v mod 64 = v" by simp_all
  with True assms have "u mod 64 < v mod 64" by linarith
  with True show ?thesis by simp
next
  case False
  from assms have "u div 64 \<le> v div 64" by (simp add: zdiv_mono1)
  with False show ?thesis by simp
qed

lemma differ_atI: "x < y \<Longrightarrow> differ_at (q @ x # s1) (q @ y # s2)"
  by (auto simp: differ_at_def)

lemma differ_at_head: "x < y \<Longrightarrow> differ_at (x # s1) (y # s2)"
  using differ_atI [of x y "[]"] by simp

lemma differ_at_Cons: "differ_at e f \<Longrightarrow> differ_at (b # e) (b # f)"
  unfolding differ_at_def
proof (elim exE conjE)
  fix q x y s1 s2 assume "e = q @ x # s1" "f = q @ y # s2" "x < y"
  then have "b # e = (b # q) @ x # s1 \<and> b # f = (b # q) @ y # s2 \<and> x < y" by simp
  then show "\<exists>q x y s1 s2. b # e = q @ x # s1 \<and> b # f = q @ y # s2 \<and> x < y" by blast
qed

lemma byte_mono: "0 \<le> m \<Longrightarrow> m < n \<Longrightarrow> n < 256 \<Longrightarrow> byte m < byte n"
  by (simp add: byte_def byte_less)

text \<open>Continuation bytes: the last \<open>k\<close> groups of six bits.\<close>

lemma last_byte_differs:
  assumes "0 \<le> u" "u < v" "u div 64 = v div 64"
  shows "differ_at [byte (128 + u mod 64)] [byte (128 + v mod 64)]"
proof -
  from assms have "u mod 64 < v mod 64" using div_mod_64_less [of u v] by simp
  then have "byte (128 + u mod 64) < byte (128 + v mod 64)" by (intro byte_mono) simp_all
  then show ?thesis by (rule differ_at_head)
qed

lemma last_two_bytes_differ:
  assumes "0 \<le> u" "u < v" "u div 4096 = v div 4096"
  shows "differ_at [byte (128 + (u div 64) mod 64), byte (128 + u mod 64)]
                   [byte (128 + (v div 64) mod 64), byte (128 + v mod 64)]"
proof (cases "u div 64 = v div 64")
  case True
  from last_byte_differs [OF assms(1,2) True] True show ?thesis by (simp add: differ_at_Cons)
next
  case False
  with assms have lt: "u div 64 < v div 64" using div_mod_64_less [of u v] by simp
  have "u div 64 div 64 = v div 64 div 64" using assms(3) by (simp add: zdiv_zmult2_eq [symmetric])
  with lt have "(u div 64) mod 64 < (v div 64) mod 64"
    using div_mod_64_less [of "u div 64" "v div 64"] by simp
  then have "byte (128 + (u div 64) mod 64) < byte (128 + (v div 64) mod 64)"
    by (intro byte_mono) simp_all
  then show ?thesis by (rule differ_at_head)
qed

lemma last_three_bytes_differ:
  assumes "0 \<le> u" "u < v" "u div 262144 = v div 262144"
  shows "differ_at [byte (128 + (u div 4096) mod 64), byte (128 + (u div 64) mod 64), byte (128 + u mod 64)]
                   [byte (128 + (v div 4096) mod 64), byte (128 + (v div 64) mod 64), byte (128 + v mod 64)]"
proof (cases "u div 4096 = v div 4096")
  case True
  from last_two_bytes_differ [OF assms(1,2) True] True show ?thesis by (simp add: differ_at_Cons)
next
  case False
  from assms have "u div 4096 \<le> v div 4096" by (simp add: zdiv_mono1)
  with False have lt: "u div 4096 < v div 4096" by simp
  have "u div 4096 div 64 = v div 4096 div 64" using assms(3) by (simp add: zdiv_zmult2_eq [symmetric])
  with lt have "(u div 4096) mod 64 < (v div 4096) mod 64"
    using div_mod_64_less [of "u div 4096" "v div 4096"] by simp
  then have "byte (128 + (u div 4096) mod 64) < byte (128 + (v div 4096) mod 64)"
    by (intro byte_mono) simp_all
  then show ?thesis by (rule differ_at_head)
qed

lemma encode_rune_1: "r < 128 \<Longrightarrow> encode_rune r = [byte r]"
  by (simp add: encode_rune_def)

lemma encode_rune_2: "128 \<le> r \<Longrightarrow> r < 2048 \<Longrightarrow>
    encode_rune r = [byte (192 + r div 64), byte (128 + r mod 64)]"
  by (simp add: encode_rune_def)

lemma encode_rune_3: "2048 \<le> r \<Longrightarrow> r < 65536 \<Longrightarrow>
    encode_rune r = [byte (224 + r div 4096), byte (128 + (r div 64) mod 64), byte (128 + r mod 64)]"
  by (simp add: encode_rune_def)

lemma encode_rune_4: "65536 \<le> r \<Longrightarrow>
    encode_rune r = [byte (240 + r div 262144), byte (128 + (r div 4096) mod 64),
                     byte (128 + (r div 64) mod 64), byte (128 + r mod 64)]"
  by (simp add: encode_rune_def)

lemma encode_rune_lead: "\<exists>tl. encode_rune r = byte (lead r) # tl"
  by (simp add: encode_rune_def lead_def)

lemma div_64_upper: "(r::int) < 2048 \<Longrightarrow> r div 64 < 32" by simp
lemma div_64_lower: "128 \<le> (r::int) \<Longrightarrow> 2 \<le> r div 64" by simp
lemma div_4096_upper: "(r::int) < 65536 \<Longrightarrow> r div 4096 < 16" by simp
lemma div_4096_lower: "0 \<le> (r::int) \<Longrightarrow> 0 \<le> r div 4096" by simp
lemma div_262144_upper: "(r::int) \<le> 1114111 \<Longrightarrow> r div 262144 < 16" by simp
lemma div_262144_lower: "0 \<le> (r::int) \<Longrightarrow> 0 \<le> r div 262144" by simp

lemma lead_bounds:
  assumes "0 \<le> r" "r \<le> 1114111"
  shows "0 \<le> lead r" "lead r < 256"
    and "r < 128 \<Longrightarrow> lead r < 128"
    and "128 \<le> r \<Longrightarrow> r < 2048 \<Longrightarrow> 194 \<le> lead r \<and> lead r < 224"
    and "2048 \<le> r \<Longrightarrow> r < 65536 \<Longrightarrow> 224 \<le> lead r \<and> lead r < 240"
    and "65536 \<le> r \<Longrightarrow> 240 \<le> lead r"
proof -
  note b = div_64_upper [of r] div_64_lower [of r] div_4096_upper [of r] div_4096_lower [of r] div_262144_upper [of r] div_262144_lower [of r]
  show "0 \<le> lead r" using assms b by (auto simp: lead_def)
  show "lead r < 256" using assms b by (auto simp: lead_def)
  show "r < 128 \<Longrightarrow> lead r < 128" by (simp add: lead_def)
  show "128 \<le> r \<Longrightarrow> r < 2048 \<Longrightarrow> 194 \<le> lead r \<and> lead r < 224"
    using b by (auto simp: lead_def)
  show "2048 \<le> r \<Longrightarrow> r < 65536 \<Longrightarrow> 224 \<le> lead r \<and> lead r < 240"
    using b assms by (auto simp: lead_def)
  show "65536 \<le> r \<Longrightarrow> 240 \<le> lead r"
    using b assms by (auto simp: lead_def)
qed

lemma lead_less_other_length:
  assumes "0 \<le> u" "v \<le> 1114111" "u < v"
    and "(u < 128 \<and> 128 \<le> v) \<or> (u < 2048 \<and> 2048 \<le> v) \<or> (u < 65536 \<and> 65536 \<le> v)"
  shows "differ_at (encode_rune u) (encode_rune v)"
proof -
  from assms have u: "0 \<le> u" "u \<le> 1114111" and v: "0 \<le> v" "v \<le> 1114111" by simp_all
  have "lead u < lead v"
    using assms(4) lead_bounds(3-6) [OF u] lead_bounds(3-6) [OF v] assms(3)
    by (cases "u < 128"; cases "u < 2048"; cases "u < 65536";
        cases "v < 128"; cases "v < 2048"; cases "v < 65536") simp_all
  with lead_bounds(1) [OF u] lead_bounds(2) [OF v] have "byte (lead u) < byte (lead v)"
    by (intro byte_mono)
  moreover obtain t1 t2 where "encode_rune u = byte (lead u) # t1" "encode_rune v = byte (lead v) # t2"
    using encode_rune_lead by blast
  ultimately show ?thesis by (simp add: differ_at_head)
qed

lemma encode_rune_mono:
  assumes "valid_rune u" "valid_rune v" "u < v"
  shows "differ_at (encode_rune u) (encode_rune v)"
proof -
  from assms have u0: "0 \<le> u" and v: "v \<le> 1114111"
    by (simp_all add: valid_rune_def MaxRune_def)
  note other = lead_less_other_length [OF u0 v assms(3)]
  consider "v < 128" | "128 \<le> v" "v < 2048" | "2048 \<le> v" "v < 65536" | "65536 \<le> v" by linarith
  then show ?thesis
  proof cases
    case 1
    with assms(3) have "u < 128" by simp
    from u0 assms(3) 1 have "byte u < byte v" by (intro byte_mono) simp_all
    then show ?thesis unfolding encode_rune_1 [OF 1] encode_rune_1 [OF \<open>u < 128\<close>] by (rule differ_at_head)
  next
    case 2
    show ?thesis
    proof (cases "u < 128")
      case True
      with 2 show ?thesis by (intro other) simp
    next
      case False
      then have u2: "128 \<le> u" "u < 2048" using assms(3) 2 by simp_all
      show ?thesis unfolding encode_rune_2 [OF 2] encode_rune_2 [OF u2]
      proof (cases "u div 64 = v div 64")
        case True
        from last_byte_differs [OF u0 assms(3) True] have
          "differ_at (byte (192 + v div 64) # [byte (128 + u mod 64)])
                     (byte (192 + v div 64) # [byte (128 + v mod 64)])" by (rule differ_at_Cons)
        with True show "differ_at [byte (192 + u div 64), byte (128 + u mod 64)]
                                  [byte (192 + v div 64), byte (128 + v mod 64)]" by simp
      next
        case False
        from assms(3) have "u div 64 \<le> v div 64" by (simp add: zdiv_mono1)
        with False have "u div 64 < v div 64" by simp
        moreover have "0 \<le> u div 64" "v div 64 < 32" using u0 2 by simp_all
        ultimately have "byte (192 + u div 64) < byte (192 + v div 64)" by (intro byte_mono) simp_all
        then show "differ_at [byte (192 + u div 64), byte (128 + u mod 64)]
                             [byte (192 + v div 64), byte (128 + v mod 64)]" by (rule differ_at_head)
      qed
    qed
  next
    case 3
    show ?thesis
    proof (cases "u < 2048")
      case True
      with 3 show ?thesis by (intro other) simp
    next
      case False
      then have u3: "2048 \<le> u" "u < 65536" using assms(3) 3 by simp_all
      show ?thesis unfolding encode_rune_3 [OF 3] encode_rune_3 [OF u3]
      proof (cases "u div 4096 = v div 4096")
        case True
        from last_two_bytes_differ [OF u0 assms(3) True] have
          "differ_at (byte (224 + v div 4096) # [byte (128 + (u div 64) mod 64), byte (128 + u mod 64)])
                     (byte (224 + v div 4096) # [byte (128 + (v div 64) mod 64), byte (128 + v mod 64)])"
          by (rule differ_at_Cons)
        with True show "differ_at
            [byte (224 + u div 4096), byte (128 + (u div 64) mod 64), byte (128 + u mod 64)]
            [byte (224 + v div 4096), byte (128 + (v div 64) mod 64), byte (128 + v mod 64)]" by simp
      next
        case False
        from assms(3) have "u div 4096 \<le> v div 4096" by (simp add: zdiv_mono1)
        with False have "u div 4096 < v div 4096" by simp
        moreover have "0 \<le> u div 4096" "v div 4096 < 16" using u0 3 by simp_all
        ultimately have "byte (224 + u div 4096) < byte (224 + v div 4096)"
          by (intro byte_mono) simp_all
        then show "differ_at
            [byte (224 + u div 4096), byte (128 + (u div 64) mod 64), byte (128 + u mod 64)]
            [byte (224 + v div 4096), byte (128 + (v div 64) mod 64), byte (128 + v mod 64)]"
          by (rule differ_at_head)
      qed
    qed
  next
    case 4
    show ?thesis
    proof (cases "u < 65536")
      case True
      with 4 show ?thesis by (intro other) simp
    next
      case False
      then have u4: "65536 \<le> u" by simp
      show ?thesis unfolding encode_rune_4 [OF 4] encode_rune_4 [OF u4]
      proof (cases "u div 262144 = v div 262144")
        case True
        from last_three_bytes_differ [OF u0 assms(3) True] have
          "differ_at (byte (240 + v div 262144) #
                       [byte (128 + (u div 4096) mod 64), byte (128 + (u div 64) mod 64),
                        byte (128 + u mod 64)])
                     (byte (240 + v div 262144) #
                       [byte (128 + (v div 4096) mod 64), byte (128 + (v div 64) mod 64),
                        byte (128 + v mod 64)])"
          by (rule differ_at_Cons)
        with True show "differ_at
            [byte (240 + u div 262144), byte (128 + (u div 4096) mod 64),
             byte (128 + (u div 64) mod 64), byte (128 + u mod 64)]
            [byte (240 + v div 262144), byte (128 + (v div 4096) mod 64),
             byte (128 + (v div 64) mod 64), byte (128 + v mod 64)]" by simp
      next
        case False
        from assms(3) have "u div 262144 \<le> v div 262144" by (simp add: zdiv_mono1)
        with False have "u div 262144 < v div 262144" by simp
        moreover have "0 \<le> u div 262144" "v div 262144 < 16" using u0 v by simp_all
        ultimately have "byte (240 + u div 262144) < byte (240 + v div 262144)"
          by (intro byte_mono) simp_all
        then show "differ_at
            [byte (240 + u div 262144), byte (128 + (u div 4096) mod 64),
             byte (128 + (u div 64) mod 64), byte (128 + u mod 64)]
            [byte (240 + v div 262144), byte (128 + (v div 4096) mod 64),
             byte (128 + (v div 64) mod 64), byte (128 + v mod 64)]"
          by (rule differ_at_head)
      qed
    qed
  qed
qed

lemma valid_MaxRune: "valid_rune MaxRune"
  by (simp add: valid_rune_def MaxRune_def)

lemma string_of_runes_differ:
  assumes "valid_rune u" "valid_rune v" "u < v"
  shows "string_of_runes (p @ u # s) < string_of_runes (p @ v # t)"
proof -
  from encode_rune_mono [OF assms] obtain q x y s1 s2 where
    e: "encode_rune u = q @ x # s1" "encode_rune v = q @ y # s2" "x < y"
    by (auto simp: differ_at_def)
  have "string_of_runes (p @ u # s) = (string_of_runes p @ q) @ x # (s1 @ string_of_runes s)"
    using assms(1) e(1) by (simp add: string_of_runes_Cons)
  moreover have "string_of_runes (p @ v # t) = (string_of_runes p @ q) @ y # (s2 @ string_of_runes t)"
    using assms(2) e(2) by (simp add: string_of_runes_Cons)
  ultimately show ?thesis using e(3) by (simp only: less_at_difference)
qed

lemma desc_key_form:
  assumes "Order.Type (Index.Order i) = OrderTypeDesc" "\<not> Base32Encode i"
  shows "getOrderedStringFieldKey d i v
           = string_of_runes (map (\<lambda>c. MaxRune - c) (runes_of v)
               @ replicate (nat (StringOrderPadLength i - int (length (runes_of v)))) MaxRune)"
  using assms by (simp add: getOrderedStringFieldKey_def Let_def string_of_runes_def)

text \<open>
  Claim C6, as the code has it. Under a descending index without base32 armoring, let
  \<open>a\<close> and \<open>b\<close> have at most as many runes as the pad length, all of them reversible,
  and let the runes of \<open>a\<close> precede the runes of \<open>b\<close> in the lexicographic order. Then
  the key part of \<open>b\<close> is below the key part of \<open>a\<close>.
\<close>

theorem descending_string_order:
  assumes desc: "Order.Type (Index.Order i) = OrderTypeDesc" and plain: "\<not> Base32Encode i"
    and la: "int (length (runes_of a)) \<le> StringOrderPadLength i"
    and lb: "int (length (runes_of b)) \<le> StringOrderPadLength i"
    and lt: "runes_of a < runes_of b"
    and ok: "list_all reversible_rune (runes_of a)" "list_all reversible_rune (runes_of b)"
  shows "getOrderedStringFieldKey d i b < getOrderedStringFieldKey d i a"
proof -
  let ?L = "StringOrderPadLength i"
  let ?rev = "map (\<lambda>c. MaxRune - c)"
  let ?pad = "\<lambda>rs. replicate (nat (?L - int (length rs))) MaxRune"
  note ka = desc_key_form [OF desc plain, of d a] and kb = desc_key_form [OF desc plain, of d b]
  from list_less_cases [OF lt] show ?thesis
  proof (elim disjE exE conjE)
    fix c r assume ext: "runes_of b = runes_of a @ c # r"
    with lb have "int (length (runes_of a)) < ?L" by simp
    then obtain n where n: "nat (?L - int (length (runes_of a))) = Suc n"
      by (cases "nat (?L - int (length (runes_of a)))") auto
    from ok(2) ext have "reversible_rune c" by simp
    then have c: "valid_rune (MaxRune - c)" "MaxRune - c < MaxRune"
      by (simp_all add: reversible_rune_def valid_rune_def)
    have "getOrderedStringFieldKey d i b
            = string_of_runes (?rev (runes_of a) @ (MaxRune - c) # (?rev r @ ?pad (runes_of b)))"
      using kb ext by simp
    moreover have "getOrderedStringFieldKey d i a
            = string_of_runes (?rev (runes_of a) @ MaxRune # replicate n MaxRune)"
      using ka n by simp
    ultimately show ?thesis
      using string_of_runes_differ [OF c(1) valid_MaxRune c(2)] by simp
  next
    fix p x y r1 r2 assume d: "runes_of a = p @ x # r1" "runes_of b = p @ y # r2" "x < y"
    from ok d have "reversible_rune x" "reversible_rune y" by simp_all
    then have v: "valid_rune (MaxRune - y)" "valid_rune (MaxRune - x)"
      by (simp_all add: reversible_rune_def)
    from d(3) have l: "MaxRune - y < MaxRune - x" by simp
    have "getOrderedStringFieldKey d i b
            = string_of_runes (?rev p @ (MaxRune - y) # (?rev r2 @ ?pad (runes_of b)))"
      using kb d(2) by simp
    moreover have "getOrderedStringFieldKey d i a
            = string_of_runes (?rev p @ (MaxRune - x) # (?rev r1 @ ?pad (runes_of a)))"
      using ka d(1) by simp
    ultimately show ?thesis using string_of_runes_differ [OF v l] by simp
  qed
qed

theorem descending_string_order_witness:
  "Order.Type (Index.Order desc_name) = OrderTypeDesc \<and> \<not> Base32Encode desc_name
   \<and> int (length (runes_of ''a'')) \<le> StringOrderPadLength desc_name
   \<and> int (length (runes_of ''b'')) \<le> StringOrderPadLength desc_name
   \<and> runes_of ''a'' < runes_of ''b''
   \<and> list_all reversible_rune (runes_of ''a'') \<and> list_all reversible_rune (runes_of ''b'')
   \<and> getOrderedStringFieldKey bare_model desc_name ''b''
       < getOrderedStringFieldKey bare_model desc_name ''a''"
proof -
  have h1: "Order.Type (Index.Order desc_name) = OrderTypeDesc" by code_simp
  have h2: "\<not> Base32Encode desc_name" by code_simp
  have h3: "int (length (runes_of ''a'')) \<le> StringOrderPadLength desc_name" by code_simp
  have h4: "int (length (runes_of ''b'')) \<le> StringOrderPadLength desc_name" by code_simp
  have h5: "runes_of ''a'' < runes_of ''b''" by code_simp
  have h6: "list_all reversible_rune (runes_of ''a'')" by code_simp
  have h7: "list_all reversible_rune (runes_of ''b'')" by code_simp
  from h1 h2 h3 h4 h5 h6 h7
    descending_string_order [OF h1 h2 h3 h4 h5 h6 h7, of bare_model]
  show ?thesis by blast
qed

text \<open>
  The claim as the specification words it holds for all strings. The image of the rune
  0 is the pad rune, so a string and the same string followed by a zero byte have one
  and the same key part.
\<close>

theorem descending_string_zero_rune:
  "int (length (runes_of ''a'')) \<le> StringOrderPadLength desc_name
   \<and> int (length (runes_of [CHR ''a'', CHR 0x00])) \<le> StringOrderPadLength desc_name
   \<and> runes_of ''a'' < runes_of [CHR ''a'', CHR 0x00]
   \<and> ''a'' < [CHR ''a'', CHR 0x00]
   \<and> \<not> Base32Encode desc_name
   \<and> getOrderedStringFieldKey bare_model desc_name [CHR ''a'', CHR 0x00]
       = getOrderedStringFieldKey bare_model desc_name ''a''
   \<and> \<not> (getOrderedStringFieldKey bare_model desc_name [CHR ''a'', CHR 0x00]
          < getOrderedStringFieldKey bare_model desc_name ''a'')"
  by code_simp

end
